theory Spec2Isabelle
  imports Complex_Main
begin

section \<open>The constant-area rectangle editor of \<^verbatim>\<open>Rectangle_Resizing.tsx\<close>\<close>

text \<open>
  The component keeps three pieces of state: the oval (\<^verbatim>\<open>useState\<close>), the list of
  rectangles (\<^verbatim>\<open>useState\<close>) and the current drag (\<^verbatim>\<open>useRef\<close>). Every handler is
  modelled as a function from the state to the next state. Events are handled one
  after the other, each on the state the previous one left: the \<^verbatim>\<open>rects\<close> and \<^verbatim>\<open>oval\<close>
  a handler closes over are those of the current state.

  Numbers are JavaScript doubles in the source and \<^typ>\<open>real\<close> here, so rounding is
  idealised away. A double can also be \<^verbatim>\<open>NaN\<close> or infinite, which no real number
  stands for: a handler that would store such a value returns \<open>Inl NonFinite\<close>
  instead of a state, and every division and square root of the source carries the
  test that decides this.
\<close>

subsection \<open>Helper types\<close>

text \<open>\<^verbatim>\<open>type Rect = { id, cx, cy, w, h, area, color }\<close>; the fields carry the prefix
  \<open>r_\<close>.\<close>

record rect =
  r_id :: string
  r_cx :: real
  r_cy :: real
  r_w :: real
  r_h :: real
  r_area :: real
  r_color :: string

text \<open>The oval state \<^verbatim>\<open>{ cx, cy, rx, ry }\<close>; the fields carry the prefix \<open>o_\<close>.\<close>

record oval =
  o_cx :: real
  o_cy :: real
  o_rx :: real
  o_ry :: real

text \<open>The handle's \<^verbatim>\<open>direction: 1 | -1\<close>.\<close>

datatype direction = DirPos | DirNeg

fun dirval :: "direction \<Rightarrow> real" where
  "dirval DirPos = 1"
| "dirval DirNeg = - 1"

text \<open>The \<^verbatim>\<open>type\<close> tag of a drag.\<close>

datatype drag_type = MoveRect | ResizeRectW | ResizeRectH | ResizeOvalRX | ResizeOvalRY

text \<open>
  What the handlers store in \<^verbatim>\<open>orig\<close> (declared \<^verbatim>\<open>any\<close>):
  \<^item> \<open>OrigRect r\<close>: the rectangle found by \<^verbatim>\<open>rects.find\<close> (move);
  \<^item> \<open>OrigRectDir ro dir\<close>: \<^verbatim>\<open>{ ...rects.find(..)!, dir }\<close> (width and height resize);
    spreading \<^verbatim>\<open>undefined\<close> adds no field, so \<open>ro = None\<close> is the object \<^verbatim>\<open>{ dir }\<close>;
  \<^item> \<open>OrigOval ov dir\<close>: \<^verbatim>\<open>{ ...oval, dir }\<close> (radius resize).
\<close>

datatype orig_snapshot =
    OrigRect rect
  | OrigRectDir "rect option" direction
  | OrigOval oval direction

text \<open>Destructuring a snapshot: a field the object lacks reads \<^verbatim>\<open>undefined\<close>,
  here \<open>None\<close>.\<close>

fun orig_rect :: "orig_snapshot \<Rightarrow> rect option" where
  "orig_rect (OrigRect r) = Some r"
| "orig_rect (OrigRectDir ro dir) = ro"
| "orig_rect (OrigOval ov dir) = None"

fun orig_oval :: "orig_snapshot \<Rightarrow> oval option" where
  "orig_oval (OrigOval ov dir) = Some ov"
| "orig_oval (OrigRect r) = None"
| "orig_oval (OrigRectDir ro dir) = None"

fun orig_dir :: "orig_snapshot \<Rightarrow> direction option" where
  "orig_dir (OrigRect r) = None"
| "orig_dir (OrigRectDir ro dir) = Some dir"
| "orig_dir (OrigOval ov dir) = Some dir"

text \<open>The object held by \<^verbatim>\<open>dragRef.current\<close>; \<^verbatim>\<open>type\<close> and \<^verbatim>\<open>id\<close> are \<open>dtype\<close> and
  \<open>did\<close>.\<close>

record drag =
  dtype :: drag_type
  did :: "string option"
  startX :: real
  startY :: real
  orig :: "orig_snapshot option"

record state =
  oval :: oval
  rects :: "rect list"
  dragRef :: "drag option"

datatype error = NonFinite

subsection \<open>Geometry utilities\<close>

text \<open>\<^verbatim>\<open>const clamp = (v, min, max) => Math.max(min, Math.min(max, v))\<close>\<close>

definition clamp :: "real \<Rightarrow> real \<Rightarrow> real \<Rightarrow> real" where
  "clamp v lo hi = max lo (min hi v)"

text \<open>
  \<^verbatim>\<open>insideEllipse\<close>. With a zero radius the source divides by zero: the quotient is
  infinite or \<^verbatim>\<open>NaN\<close>, so is the sum of squares, and \<^verbatim>\<open><= 1\<close> is false.
\<close>

definition insideEllipse :: "real \<Rightarrow> real \<Rightarrow> real \<Rightarrow> real \<Rightarrow> real \<Rightarrow> real \<Rightarrow> bool" where
  "insideEllipse x y cx cy rx ry =
     (if rx = 0 \<or> ry = 0 then False
      else (let dx = (x - cx) / rx; dy = (y - cy) / ry
            in dx * dx + dy * dy \<le> 1))"

subsection \<open>The component's constants and initial state\<close>

text \<open>\<^verbatim>\<open>const [W, H] = [960, 560]\<close>\<close>

definition canvasW :: real where "canvasW = 960"
definition canvasH :: real where "canvasH = 560"

definition initialOval :: oval where
  "initialOval = \<lparr> o_cx = canvasW / 2, o_cy = canvasH / 2, o_rx = 320, o_ry = 200 \<rparr>"

text \<open>The four rectangles of \<^verbatim>\<open>initialRects\<close>; the ids \<^verbatim>\<open>`R${i + 1}`\<close> and the colours
  \<^verbatim>\<open>colors[i % colors.length]\<close> are written out for \<open>i = 0, \<dots>, 3\<close>.\<close>

definition mkRect :: "string \<Rightarrow> string \<Rightarrow> real \<times> real \<Rightarrow> rect" where
  "mkRect i c p =
     (let w = 120; h = 60
      in \<lparr> r_id = i, r_cx = fst p, r_cy = snd p, r_w = w, r_h = h, r_area = w * h,
           r_color = c \<rparr>)"

definition initialRects :: "rect list" where
  "initialRects =
     (let ov = initialOval;
          positions =
            [(o_cx ov - o_rx ov / 2.2, o_cy ov - o_ry ov / 3),
             (o_cx ov + o_rx ov / 2.2, o_cy ov - o_ry ov / 3),
             (o_cx ov - o_rx ov / 2.2, o_cy ov + o_ry ov / 3),
             (o_cx ov + o_rx ov / 2.2, o_cy ov + o_ry ov / 3)]
      in map2 (\<lambda>(i, c) p. mkRect i c p)
           [(''R1'', ''#2563eb''), (''R2'', ''#16a34a''), (''R3'', ''#f59e0b''),
            (''R4'', ''#ef4444'')]
           positions)"

definition initialState :: state where
  "initialState = \<lparr> oval = initialOval, rects = initialRects, dragRef = None \<rparr>"

subsection \<open>Pointer-down handlers\<close>

definition onMouseDownRectMove :: "state \<Rightarrow> string \<Rightarrow> real \<Rightarrow> real \<Rightarrow> state" where
  "onMouseDownRectMove s i clientX clientY =
     s\<lparr>dragRef := Some \<lparr> dtype = MoveRect, did = Some i, startX = clientX, startY = clientY,
          orig = map_option OrigRect (find (\<lambda>r. r_id r = i) (rects s)) \<rparr>\<rparr>"

definition onMouseDownRectW ::
  "state \<Rightarrow> string \<Rightarrow> direction \<Rightarrow> real \<Rightarrow> real \<Rightarrow> state" where
  "onMouseDownRectW s i dir clientX clientY =
     s\<lparr>dragRef := Some \<lparr> dtype = ResizeRectW, did = Some i, startX = clientX,
          startY = clientY,
          orig = Some (OrigRectDir (find (\<lambda>r. r_id r = i) (rects s)) dir) \<rparr>\<rparr>"

definition onMouseDownRectH ::
  "state \<Rightarrow> string \<Rightarrow> direction \<Rightarrow> real \<Rightarrow> real \<Rightarrow> state" where
  "onMouseDownRectH s i dir clientX clientY =
     s\<lparr>dragRef := Some \<lparr> dtype = ResizeRectH, did = Some i, startX = clientX,
          startY = clientY,
          orig = Some (OrigRectDir (find (\<lambda>r. r_id r = i) (rects s)) dir) \<rparr>\<rparr>"

definition onMouseDownOvalRX :: "state \<Rightarrow> direction \<Rightarrow> real \<Rightarrow> real \<Rightarrow> state" where
  "onMouseDownOvalRX s dir clientX clientY =
     s\<lparr>dragRef := Some \<lparr> dtype = ResizeOvalRX, did = None, startX = clientX,
          startY = clientY, orig = Some (OrigOval (oval s) dir) \<rparr>\<rparr>"

definition onMouseDownOvalRY :: "state \<Rightarrow> direction \<Rightarrow> real \<Rightarrow> real \<Rightarrow> state" where
  "onMouseDownOvalRY s dir clientX clientY =
     s\<lparr>dragRef := Some \<lparr> dtype = ResizeOvalRY, did = None, startX = clientX,
          startY = clientY, orig = Some (OrigOval (oval s) dir) \<rparr>\<rparr>"

subsection \<open>Pointer-move handler\<close>

text \<open>
  Every branch of \<^verbatim>\<open>onMouseMove\<close> tests \<^verbatim>\<open>d.orig\<close>, and the function does nothing when
  no branch is taken, so the model tests \<open>orig d\<close> once, before the branches.
  \<^verbatim>\<open>d.id\<close> as a condition: a string is truthy unless it is empty or absent.
\<close>

fun truthy_id :: "string option \<Rightarrow> bool" where
  "truthy_id None = False"
| "truthy_id (Some i) = (i \<noteq> [])"

text \<open>The callback of the move branch, applied to the live rectangle \<open>r\<close>.\<close>

definition moveRectBy :: "real \<Rightarrow> real \<Rightarrow> rect \<Rightarrow> rect" where
  "moveRectBy dx dy r =
     (let nx = r_cx r + dx; ny = r_cy r + dy;
          cx = clamp nx 0 canvasW; cy = clamp ny 0 canvasH
      in r\<lparr>r_cx := cx, r_cy := cy\<rparr>)"

text \<open>
  The new \<open>(w, h)\<close> of the two resize branches. A snapshot without the destructured
  fields makes the arithmetic \<^verbatim>\<open>NaN\<close> (\<^verbatim>\<open>Math.max(20, NaN)\<close> is \<^verbatim>\<open>NaN\<close>): \<open>None\<close>.
  The divisors are at least 20 and 10.
\<close>

definition resizeW_dims :: "orig_snapshot \<Rightarrow> real \<Rightarrow> (real \<times> real) option" where
  "resizeW_dims og dx =
     (case (orig_rect og, orig_dir og) of
        (Some r0, Some dir) \<Rightarrow>
          (let w = max 20 (r_w r0 + dirval dir * dx);
               h = clamp (r_area r0 / w) 10 600
           in Some (w, h))
      | _ \<Rightarrow> None)"

definition resizeH_dims :: "orig_snapshot \<Rightarrow> real \<Rightarrow> (real \<times> real) option" where
  "resizeH_dims og dy =
     (case (orig_rect og, orig_dir og) of
        (Some r0, Some dir) \<Rightarrow>
          (let h = max 10 (r_h r0 + dirval dir * dy);
               w = clamp (r_area r0 / h) 20 900
           in Some (w, h))
      | _ \<Rightarrow> None)"

text \<open>\<^verbatim>\<open>setRects(prev => prev.map(r => (r.id === d.id ? { ...r, w, h } : r)))\<close>: with
  \<^verbatim>\<open>NaN\<close> dimensions the state stays real only if no rectangle has the id.\<close>

definition writeDims :: "state \<Rightarrow> string option \<Rightarrow> (real \<times> real) option \<Rightarrow> error + state" where
  "writeDims s i wh =
     (case wh of
        Some (w, h) \<Rightarrow>
          Inr (s\<lparr>rects := map (\<lambda>r. if Some (r_id r) = i then r\<lparr>r_w := w, r_h := h\<rparr> else r)
                              (rects s)\<rparr>)
      | None \<Rightarrow>
          if list_ex (\<lambda>r. Some (r_id r) = i) (rects s) then Inl NonFinite else Inr s)"

text \<open>The new radius of the two oval branches; \<open>None\<close> is \<^verbatim>\<open>NaN\<close> as above.\<close>

definition resizeRX_val :: "orig_snapshot \<Rightarrow> real \<Rightarrow> real option" where
  "resizeRX_val og dx =
     (case (orig_oval og, orig_dir og) of
        (Some o0, Some dir) \<Rightarrow> Some (clamp (o_rx o0 + dirval dir * dx) 60 (canvasW / 2 - 40))
      | _ \<Rightarrow> None)"

definition resizeRY_val :: "orig_snapshot \<Rightarrow> real \<Rightarrow> real option" where
  "resizeRY_val og dy =
     (case (orig_oval og, orig_dir og) of
        (Some o0, Some dir) \<Rightarrow> Some (clamp (o_ry o0 + dirval dir * dy) 60 (canvasH / 2 - 40))
      | _ \<Rightarrow> None)"

definition onMouseMove :: "state \<Rightarrow> real \<Rightarrow> real \<Rightarrow> error + state" where
  "onMouseMove s clientX clientY =
     (case dragRef s of
        None \<Rightarrow> Inr s
      | Some d \<Rightarrow>
          (let dx = clientX - startX d; dy = clientY - startY d
           in case orig d of
                None \<Rightarrow> Inr s
              | Some og \<Rightarrow>
                  if dtype d = MoveRect \<and> truthy_id (did d) then
                    Inr (s\<lparr>rects := map (\<lambda>r. if Some (r_id r) \<noteq> did d then r
                                              else moveRectBy dx dy r) (rects s)\<rparr>)
                  else if dtype d = ResizeRectW \<and> truthy_id (did d) then
                    writeDims s (did d) (resizeW_dims og dx)
                  else if dtype d = ResizeRectH \<and> truthy_id (did d) then
                    writeDims s (did d) (resizeH_dims og dy)
                  else if dtype d = ResizeOvalRX then
                    (case resizeRX_val og dx of
                       Some rx \<Rightarrow> Inr (s\<lparr>oval := (oval s)\<lparr>o_rx := rx\<rparr>\<rparr>)
                     | None \<Rightarrow> Inl NonFinite)
                  else if dtype d = ResizeOvalRY then
                    (case resizeRY_val og dy of
                       Some ry \<Rightarrow> Inr (s\<lparr>oval := (oval s)\<lparr>o_ry := ry\<rparr>\<rparr>)
                     | None \<Rightarrow> Inl NonFinite)
                  else Inr s))"

subsection \<open>Pointer-up handler (also bound to pointer-leave)\<close>

definition recenter :: "oval \<Rightarrow> rect \<Rightarrow> rect" where
  "recenter ov r =
     (let inEll = insideEllipse (r_cx r) (r_cy r) (o_cx ov) (o_cy ov) (o_rx ov) (o_ry ov)
      in if inEll then r
         else (let nx = clamp (r_cx r) (o_cx ov - o_rx ov + r_w r / 2)
                          (o_cx ov + o_rx ov - r_w r / 2);
                   ny = clamp (r_cy r) (o_cy ov - o_ry ov + r_h r / 2)
                          (o_cy ov + o_ry ov - r_h r / 2)
               in r\<lparr>r_cx := nx, r_cy := ny\<rparr>))"

definition onMouseUp :: "state \<Rightarrow> state" where
  "onMouseUp s = s\<lparr>dragRef := None, rects := map (recenter (oval s)) (rects s)\<rparr>"

subsection \<open>The two buttons\<close>

text \<open>
  ``Normalize sizes''. \<^verbatim>\<open>Math.sqrt(r.area * (r.w / r.h))\<close> and \<^verbatim>\<open>r.area / w\<close> are finite
  exactly when \<^verbatim>\<open>r.h\<close> is not zero and the argument of the root is positive (a zero
  root makes the second division \<^verbatim>\<open>NaN\<close> or infinite).
\<close>

definition normalizable :: "rect \<Rightarrow> bool" where
  "normalizable r = (r_h r \<noteq> 0 \<and> 0 < r_area r * (r_w r / r_h r))"

definition normalizeRect :: "rect \<Rightarrow> rect" where
  "normalizeRect r =
     (let w = sqrt (r_area r * (r_w r / r_h r));
          h = r_area r / w
      in r\<lparr>r_w := w, r_h := h\<rparr>)"

definition normalizeSizes :: "state \<Rightarrow> error + state" where
  "normalizeSizes s =
     (if list_all normalizable (rects s)
      then Inr (s\<lparr>rects := map normalizeRect (rects s)\<rparr>)
      else Inl NonFinite)"

text \<open>
  ``Randomize aspect''. \<^verbatim>\<open>Math.random()\<close> is called once per rectangle, in list
  order; the argument \<open>rnd\<close> gives the value of the \<open>k\<close>-th call. The aspect is at
  least \<open>0.5\<close>, so the results are finite exactly when the area is positive.
\<close>

definition randomizeRect :: "real \<Rightarrow> rect \<Rightarrow> rect" where
  "randomizeRect u r =
     (let aspect = clamp (u * 3 + 0.5) 0.5 3.5;
          h = sqrt (r_area r / aspect);
          w = r_area r / h
      in r\<lparr>r_w := w, r_h := h\<rparr>)"

definition randomizeAspect :: "state \<Rightarrow> (nat \<Rightarrow> real) \<Rightarrow> error + state" where
  "randomizeAspect s rnd =
     (if list_all (\<lambda>r. 0 < r_area r) (rects s)
      then Inr (s\<lparr>rects := map2 (\<lambda>k r. randomizeRect (rnd k) r)
                                [0 ..< length (rects s)] (rects s)\<rparr>)
      else Inl NonFinite)"

subsection \<open>Events and runs\<close>

datatype event =
    MouseDownRectMove string real real
  | MouseDownRectW string direction real real
  | MouseDownRectH string direction real real
  | MouseDownOvalRX direction real real
  | MouseDownOvalRY direction real real
  | MouseMove real real
  | MouseUp
  | MouseLeave
  | NormalizeClick
  | RandomizeClick "nat \<Rightarrow> real"

fun step :: "state \<Rightarrow> event \<Rightarrow> error + state" where
  "step s (MouseDownRectMove i x y) = Inr (onMouseDownRectMove s i x y)"
| "step s (MouseDownRectW i dir x y) = Inr (onMouseDownRectW s i dir x y)"
| "step s (MouseDownRectH i dir x y) = Inr (onMouseDownRectH s i dir x y)"
| "step s (MouseDownOvalRX dir x y) = Inr (onMouseDownOvalRX s dir x y)"
| "step s (MouseDownOvalRY dir x y) = Inr (onMouseDownOvalRY s dir x y)"
| "step s (MouseMove x y) = onMouseMove s x y"
| "step s MouseUp = Inr (onMouseUp s)"
| "step s MouseLeave = Inr (onMouseUp s)"
| "step s NormalizeClick = normalizeSizes s"
| "step s (RandomizeClick rnd) = randomizeAspect s rnd"

fun run :: "state \<Rightarrow> event list \<Rightarrow> error + state" where
  "run s [] = Inr s"
| "run s (e # es) = (case step s e of Inl err \<Rightarrow> Inl err | Inr s' \<Rightarrow> run s' es)"

subsection \<open>Well-formed states\<close>

text \<open>
  A resize snapshot is usable when it has the fields its branch destructures and its
  area is the area of the rectangles the drag names; a snapshot without them is
  harmless as long as no rectangle has the drag's id.
\<close>

definition rect_snapshot_ok :: "rect list \<Rightarrow> drag \<Rightarrow> bool" where
  "rect_snapshot_ok rs d =
     (case orig d of
        None \<Rightarrow> True
      | Some og \<Rightarrow>
          (case (orig_rect og, orig_dir og) of
             (Some r0, Some dir) \<Rightarrow>
               list_all (\<lambda>r. Some (r_id r) = did d \<longrightarrow> r_area r = r_area r0) rs
           | _ \<Rightarrow> \<not> list_ex (\<lambda>r. Some (r_id r) = did d) rs))"

definition oval_snapshot_ok :: "drag \<Rightarrow> bool" where
  "oval_snapshot_ok d =
     (case orig d of
        None \<Rightarrow> True
      | Some og \<Rightarrow> orig_oval og \<noteq> None \<and> orig_dir og \<noteq> None)"

definition drag_ok :: "state \<Rightarrow> bool" where
  "drag_ok s =
     (case dragRef s of
        None \<Rightarrow> True
      | Some d \<Rightarrow>
          (case dtype d of
             MoveRect \<Rightarrow> True
           | ResizeRectW \<Rightarrow> rect_snapshot_ok (rects s) d
           | ResizeRectH \<Rightarrow> rect_snapshot_ok (rects s) d
           | ResizeOvalRX \<Rightarrow> oval_snapshot_ok d
           | ResizeOvalRY \<Rightarrow> oval_snapshot_ok d))"

definition rect_pos :: "rect \<Rightarrow> bool" where
  "rect_pos r = (0 < r_w r \<and> 0 < r_h r \<and> 0 < r_area r)"

definition rects_ok :: "rect list \<Rightarrow> bool" where
  "rects_ok rs = (distinct (map r_id rs) \<and> list_all rect_pos rs)"

definition wf_state :: "state \<Rightarrow> bool" where
  "wf_state s = (rects_ok (rects s) \<and> drag_ok s)"

text \<open>The bounds of the radii: \<^verbatim>\<open>clamp(.., 60, W / 2 - 40)\<close> and
  \<^verbatim>\<open>clamp(.., 60, H / 2 - 40)\<close>.\<close>

definition radii_ok :: "oval \<Rightarrow> bool" where
  "radii_ok ov =
     (60 \<le> o_rx ov \<and> o_rx ov \<le> canvasW / 2 - 40 \<and>
      60 \<le> o_ry ov \<and> o_ry ov \<le> canvasH / 2 - 40)"

subsection \<open>Projections used in the statements\<close>

text \<open>The identity and area of a rectangle: no handler writes either.\<close>

definition id_area :: "rect \<Rightarrow> string \<times> real" where
  "id_area r = (r_id r, r_area r)"

text \<open>Everything of a rectangle but its width and height.\<close>

definition rect_frame :: "rect \<Rightarrow> string \<times> real \<times> real \<times> real \<times> string" where
  "rect_frame r = (r_id r, r_cx r, r_cy r, r_area r, r_color r)"

text \<open>The first rectangle of the initial state, with its centre evaluated.\<close>

definition rectR1 :: rect where
  "rectR1 = \<lparr>r_id = ''R1'', r_cx = 480 - 1600 / 11, r_cy = 280 - 200 / 3, r_w = 120, r_h = 60,
     r_area = 7200, r_color = ''#2563eb''\<rparr>"

text \<open>
  The state after the first rectangle has been grabbed at \<open>(500, 100)\<close> and dragged to
  \<open>(100, 100)\<close>, the button still down: its centre is on the left edge of the canvas,
  outside the oval (\<open>run_draggedOut\<close> below).
\<close>

definition draggedOut :: state where
  "draggedOut = initialState\<lparr>rects := rectR1\<lparr>r_cx := 0\<rparr> # tl (rects initialState),
     dragRef := Some \<lparr>dtype = MoveRect, did = Some ''R1'', startX = 500, startY = 100,
                      orig = Some (OrigRect rectR1)\<rparr>\<rparr>"

section \<open>Properties\<close>

subsection \<open>Clamping and the initial state\<close>


lemma clamp_id: "lo \<le> v \<Longrightarrow> v \<le> hi \<Longrightarrow> clamp v lo hi = v"
  by (simp add: clamp_def)

lemma clamp_lower: "lo \<le> clamp v lo hi"
  by (simp add: clamp_def)

lemma clamp_bounds: "lo \<le> hi \<Longrightarrow> lo \<le> clamp v lo hi \<and> clamp v lo hi \<le> hi"
  by (simp add: clamp_def)

lemma initialRects_eval:
  "initialRects =
     [\<lparr>r_id = ''R1'', r_cx = 480 - 1600 / 11, r_cy = 280 - 200 / 3, r_w = 120, r_h = 60, r_area = 7200, r_color = ''#2563eb''\<rparr>,
      \<lparr>r_id = ''R2'', r_cx = 480 + 1600 / 11, r_cy = 280 - 200 / 3, r_w = 120, r_h = 60, r_area = 7200, r_color = ''#16a34a''\<rparr>,
      \<lparr>r_id = ''R3'', r_cx = 480 - 1600 / 11, r_cy = 280 + 200 / 3, r_w = 120, r_h = 60, r_area = 7200, r_color = ''#f59e0b''\<rparr>,
      \<lparr>r_id = ''R4'', r_cx = 480 + 1600 / 11, r_cy = 280 + 200 / 3, r_w = 120, r_h = 60, r_area = 7200, r_color = ''#ef4444''\<rparr>]"
  by (simp add: initialRects_def initialOval_def mkRect_def canvasW_def canvasH_def)

lemma wf_initialState: "wf_state initialState"
  by (simp add: wf_state_def initialState_def rects_ok_def drag_ok_def initialRects_eval rect_pos_def)

lemma radii_ok_initial: "radii_ok (oval initialState)"
  by (simp add: radii_ok_def initialState_def initialOval_def canvasW_def canvasH_def)


subsection \<open>Well-formedness is kept by every handler\<close>

text \<open>
  The handlers never write an id or an area, so a snapshot that agrees with the
  rectangles keeps agreeing, and the dimensions they write are positive. Hence no
  handler stores a non-finite number in a run that starts from a well-formed state
  (\<open>run_wf\<close>), and the initial state is well-formed (\<open>wf_initialState\<close>).
\<close>

lemma rect_snapshot_ok_cong:
  assumes "map id_area rs' = map id_area rs"
  shows "rect_snapshot_ok rs' d = rect_snapshot_ok rs d"
proof -
  have a: "list_all (\<lambda>r. Some (r_id r) = i \<longrightarrow> r_area r = a) xs
        = list_all (\<lambda>p. Some (fst p) = i \<longrightarrow> snd p = a) (map id_area xs)" for i a xs
    by (simp add: list_all_iff id_area_def)
  have e: "list_ex (\<lambda>r. Some (r_id r) = i) xs
        = list_ex (\<lambda>p. Some (fst p) = i) (map id_area xs)" for i xs
    by (simp add: list_ex_iff id_area_def)
  show ?thesis
    unfolding rect_snapshot_ok_def a e assms ..
qed

lemma drag_ok_cong:
  assumes "map id_area (rects s') = map id_area (rects s)" "dragRef s' = dragRef s"
  shows "drag_ok s' = drag_ok s"
  using assms rect_snapshot_ok_cong [of "rects s'" "rects s"]
  by (simp add: drag_ok_def split: option.splits drag_type.splits)

lemma rects_ok_ids: "rects_ok rs \<Longrightarrow> map r_id rs' = map r_id rs \<Longrightarrow> list_all rect_pos rs' \<Longrightarrow> rects_ok rs'"
  by (simp add: rects_ok_def)

lemma id_area_ids: "map id_area rs' = map id_area rs \<Longrightarrow> map r_id rs' = map r_id rs"
proof -
  assume "map id_area rs' = map id_area rs"
  then have "map fst (map id_area rs') = map fst (map id_area rs)" by simp
  then show ?thesis by (simp add: id_area_def comp_def)
qed

lemma writeDims_frame:
  "writeDims s i wh = Inr s' \<Longrightarrow>
     map id_area (rects s') = map id_area (rects s) \<and> dragRef s' = dragRef s \<and> oval s' = oval s"
  by (auto simp: writeDims_def id_area_def split: option.splits if_splits)

lemma onMouseMove_frame:
  "onMouseMove s x y = Inr s' \<Longrightarrow>
     map id_area (rects s') = map id_area (rects s) \<and> dragRef s' = dragRef s"
  by (auto simp: onMouseMove_def Let_def moveRectBy_def id_area_def
      dest!: writeDims_frame split: option.splits if_splits)

lemma writeDims_pos:
  assumes "writeDims s i wh = Inr s'" "\<And>w h. wh = Some (w, h) \<Longrightarrow> 0 < w \<and> 0 < h"
    "list_all rect_pos (rects s)"
  shows "list_all rect_pos (rects s')"
proof (cases wh)
  case None
  with assms(1) have "s' = s" by (simp add: writeDims_def split: if_splits)
  with assms(3) show ?thesis by simp
next
  case (Some p)
  obtain w h where p: "p = (w, h)" by (cases p)
  from assms(2) Some p have "0 < w" "0 < h" by auto
  moreover from assms(1) Some p
  have "rects s' = map (\<lambda>r. if Some (r_id r) = i then r\<lparr>r_w := w, r_h := h\<rparr> else r) (rects s)"
    by (auto simp: writeDims_def)
  ultimately show ?thesis using assms(3)
    by (auto simp: list_all_iff rect_pos_def)
qed

lemma resizeW_dims_pos: "resizeW_dims og dx = Some (w, h) \<Longrightarrow> 0 < w \<and> 0 < h"
  by (auto simp: resizeW_dims_def Let_def clamp_def split: option.splits)

lemma resizeH_dims_pos: "resizeH_dims og dx = Some (w, h) \<Longrightarrow> 0 < w \<and> 0 < h"
  by (auto simp: resizeH_dims_def Let_def clamp_def split: option.splits)

lemma moveRectBy_pos: "rect_pos (moveRectBy dx dy r) = rect_pos r"
  by (simp add: moveRectBy_def rect_pos_def Let_def)

lemma onMouseMove_pos:
  assumes "onMouseMove s x y = Inr s'" "list_all rect_pos (rects s)"
  shows "list_all rect_pos (rects s')"
proof (cases "dragRef s")
  case None
  with assms show ?thesis by (simp add: onMouseMove_def)
next
  case (Some d)
  show ?thesis
  proof (cases "orig d")
    case None
    with Some assms show ?thesis by (simp add: onMouseMove_def)
  next
    case og: (Some og)
    consider (mv) "dtype d = MoveRect" "truthy_id (did d)"
      | (rw) "dtype d = ResizeRectW" "truthy_id (did d)"
      | (rh) "dtype d = ResizeRectH" "truthy_id (did d)"
      | (other) "rects s' = rects s"
      using assms(1) Some og
      by (cases "dtype d"; cases "truthy_id (did d)")
         (auto simp: onMouseMove_def Let_def split: option.splits)
    then show ?thesis
    proof cases
      case mv
      with assms Some og show ?thesis
        by (auto simp: onMouseMove_def Let_def list_all_iff moveRectBy_pos)
    next
      case rw
      with assms(1) Some og
      have "writeDims s (did d) (resizeW_dims og (x - startX d)) = Inr s'"
        by (simp add: onMouseMove_def Let_def)
      then show ?thesis using resizeW_dims_pos assms(2) by (rule writeDims_pos)
    next
      case rh
      with assms(1) Some og
      have "writeDims s (did d) (resizeH_dims og (y - startY d)) = Inr s'"
        by (simp add: onMouseMove_def Let_def)
      then show ?thesis using resizeH_dims_pos assms(2) by (rule writeDims_pos)
    next
      case other
      with assms(2) show ?thesis by simp
    qed
  qed
qed

lemma onMouseMove_total:
  assumes "drag_ok s"
  shows "\<exists>s'. onMouseMove s x y = Inr s'"
  using assms
  by (auto simp: onMouseMove_def Let_def drag_ok_def rect_snapshot_ok_def oval_snapshot_ok_def
      writeDims_def resizeW_dims_def resizeH_dims_def resizeRX_val_def resizeRY_val_def
      split: option.splits drag_type.splits)


lemma find_id_unique:
  "distinct (map r_id rs) \<Longrightarrow> find (\<lambda>r. r_id r = i) rs = Some r0 \<Longrightarrow> r \<in> set rs \<Longrightarrow> r_id r = i
     \<Longrightarrow> r = r0"
  by (induction rs) (auto split: if_splits)

lemma rect_snapshot_ok_find:
  assumes "distinct (map r_id rs)"
  shows "rect_snapshot_ok rs \<lparr> dtype = ty, did = Some i, startX = x, startY = y,
           orig = Some (OrigRectDir (find (\<lambda>r. r_id r = i) rs) dir) \<rparr>"
proof (cases "find (\<lambda>r. r_id r = i) rs")
  case None
  then have "\<forall>r\<in>set rs. r_id r \<noteq> i" by (simp add: find_None_iff)
  with None show ?thesis
    by (simp add: rect_snapshot_ok_def list_ex_iff)
next
  case (Some r0)
  with assms show ?thesis
    by (auto simp: rect_snapshot_ok_def list_all_iff dest: find_id_unique)
qed

lemma mouseDown_wf:
  assumes "wf_state s"
  shows "wf_state (onMouseDownRectMove s i x y)"
    and "wf_state (onMouseDownRectW s i dir x y)"
    and "wf_state (onMouseDownRectH s i dir x y)"
    and "wf_state (onMouseDownOvalRX s dir x y)"
    and "wf_state (onMouseDownOvalRY s dir x y)"
  using assms rect_snapshot_ok_find [of "rects s"]
  by (simp_all add: wf_state_def rects_ok_def drag_ok_def onMouseDownRectMove_def
      onMouseDownRectW_def onMouseDownRectH_def onMouseDownOvalRX_def onMouseDownOvalRY_def
      oval_snapshot_ok_def)

lemma recenter_frame: "id_area (recenter ov r) = id_area r" "rect_pos (recenter ov r) = rect_pos r"
  by (simp_all add: recenter_def id_area_def rect_pos_def Let_def)

lemma onMouseUp_wf: "wf_state s \<Longrightarrow> wf_state (onMouseUp s)"
proof -
  assume wf: "wf_state s"
  have ia: "map id_area (rects (onMouseUp s)) = map id_area (rects s)"
    by (simp add: onMouseUp_def recenter_frame comp_def)
  have "list_all rect_pos (rects (onMouseUp s)) = list_all rect_pos (rects s)"
    by (simp add: onMouseUp_def list_all_iff recenter_frame)
  moreover have "drag_ok (onMouseUp s)" by (simp add: drag_ok_def onMouseUp_def)
  ultimately show ?thesis using wf rects_ok_ids [OF _ id_area_ids [OF ia]]
    by (simp add: wf_state_def rects_ok_def)
qed

lemma normalizeRect_pos: "rect_pos r \<Longrightarrow> rect_pos (normalizeRect r)"
  by (simp add: rect_pos_def normalizeRect_def Let_def)

lemma rect_pos_normalizable: "rect_pos r \<Longrightarrow> normalizable r"
  by (simp add: rect_pos_def normalizable_def)

lemma normalizeSizes_total: "list_all rect_pos (rects s) \<Longrightarrow>
   normalizeSizes s = Inr (s\<lparr>rects := map normalizeRect (rects s)\<rparr>)"
  by (simp add: normalizeSizes_def list_all_iff rect_pos_normalizable)

lemma normalizeSizes_frame: "normalizeSizes s = Inr s' \<Longrightarrow>
     map id_area (rects s') = map id_area (rects s) \<and> dragRef s' = dragRef s \<and> oval s' = oval s"
  by (auto simp: normalizeSizes_def normalizeRect_def id_area_def Let_def split: if_splits)

lemma normalizeSizes_wf:
  assumes "wf_state s"
  shows "\<exists>s'. normalizeSizes s = Inr s' \<and> wf_state s'"
proof -
  from assms have pos: "list_all rect_pos (rects s)" by (simp add: wf_state_def rects_ok_def)
  let ?s' = "s\<lparr>rects := map normalizeRect (rects s)\<rparr>"
  have n: "normalizeSizes s = Inr ?s'" using pos by (rule normalizeSizes_total)
  have fr: "map id_area (rects ?s') = map id_area (rects s)" "dragRef ?s' = dragRef s"
    using normalizeSizes_frame [OF n] by simp_all
  have "list_all rect_pos (rects ?s')" using pos by (simp add: list_all_iff normalizeRect_pos)
  with assms fr have "wf_state ?s'"
    unfolding wf_state_def using drag_ok_cong [OF fr] rects_ok_ids [OF _ id_area_ids [OF fr(1)]]
    by simp
  with n show ?thesis by blast
qed

lemma randomizeRect_pos: "rect_pos r \<Longrightarrow> rect_pos (randomizeRect u r)"
  by (simp add: rect_pos_def randomizeRect_def Let_def clamp_def)

lemma randomizeRect_frame: "id_area (randomizeRect u r) = id_area r"
  by (simp add: randomizeRect_def id_area_def Let_def)

lemma randomize_frame: "randomizeAspect s rnd = Inr s' \<Longrightarrow>
     map id_area (rects s') = map id_area (rects s) \<and> dragRef s' = dragRef s \<and> oval s' = oval s"
proof -
  assume a: "randomizeAspect s rnd = Inr s'"
  then have s': "s' = s\<lparr>rects := map2 (\<lambda>k r. randomizeRect (rnd k) r)
                                [0 ..< length (rects s)] (rects s)\<rparr>"
    by (simp add: randomizeAspect_def split: if_splits)
  have "map id_area (map2 (\<lambda>k r. randomizeRect (rnd k) r) [0 ..< length rs] rs) = map id_area rs"
    for rs by (rule nth_equalityI) (simp_all add: randomizeRect_frame)
  with s' show ?thesis by simp
qed

lemma randomize_wf:
  assumes "wf_state s"
  shows "\<exists>s'. randomizeAspect s rnd = Inr s' \<and> wf_state s'"
proof -
  from assms have pos: "list_all rect_pos (rects s)" by (simp add: wf_state_def rects_ok_def)
  let ?s' = "s\<lparr>rects := map2 (\<lambda>k r. randomizeRect (rnd k) r) [0 ..< length (rects s)] (rects s)\<rparr>"
  have n: "randomizeAspect s rnd = Inr ?s'" using pos
    by (simp add: randomizeAspect_def list_all_iff rect_pos_def)
  have fr: "map id_area (rects ?s') = map id_area (rects s)" "dragRef ?s' = dragRef s"
    using randomize_frame [OF n] by simp_all
  have "list_all rect_pos (rects ?s')" using pos
    by (simp add: list_all_length randomizeRect_pos)
  with assms fr have "wf_state ?s'"
    unfolding wf_state_def using drag_ok_cong [OF fr] rects_ok_ids [OF _ id_area_ids [OF fr(1)]]
    by simp
  with n show ?thesis by blast
qed

lemma onMouseMove_wf:
  assumes "wf_state s"
  shows "\<exists>s'. onMouseMove s x y = Inr s' \<and> wf_state s'"
proof -
  from assms obtain s' where m: "onMouseMove s x y = Inr s'"
    using onMouseMove_total [of s x y] by (auto simp: wf_state_def)
  note fr = onMouseMove_frame [OF m]
  from assms have "list_all rect_pos (rects s')"
    using onMouseMove_pos [OF m] by (simp add: wf_state_def rects_ok_def)
  with assms fr have "wf_state s'"
    unfolding wf_state_def
    using drag_ok_cong [of s' s] rects_ok_ids [of "rects s" "rects s'"] id_area_ids [of "rects s'" "rects s"]
    by simp
  with m show ?thesis by blast
qed

lemma step_wf: "wf_state s \<Longrightarrow> \<exists>s'. step s e = Inr s' \<and> wf_state s'"
  by (cases e) (simp_all add: mouseDown_wf onMouseUp_wf onMouseMove_wf normalizeSizes_wf randomize_wf)

lemma run_wf: "wf_state s \<Longrightarrow> \<exists>s'. run s es = Inr s' \<and> wf_state s'"
proof (induction es arbitrary: s)
  case Nil
  then show ?case by simp
next
  case (Cons e es)
  from step_wf [OF Cons.prems, of e] obtain s1 where "step s e = Inr s1" "wf_state s1" by blast
  with Cons.IH [of s1] show ?case by simp
qed

text \<open>Every run from the initial state returns a state, and a well-formed one.\<close>

lemma run_initialState_wf: "\<exists>s. run initialState es = Inr s \<and> wf_state s"
  using wf_initialState by (rule run_wf)


subsection \<open>What a resize move writes\<close>

lemma drag_ok_snapshot_area:
  assumes "drag_ok s" "dragRef s = Some d" "dtype d = ResizeRectW \<or> dtype d = ResizeRectH"
    "orig d = Some (OrigRectDir (Some r0) dir)" "did d = Some i" "r \<in> set (rects s)" "r_id r = i"
  shows "r_area r = r_area r0"
  using assms by (auto simp: drag_ok_def rect_snapshot_ok_def list_all_iff)

lemma writeDims_Some:
  "writeDims s i (Some (w, h)) = Inr s' \<Longrightarrow> r' \<in> set (rects s') \<Longrightarrow> Some (r_id r') = i \<Longrightarrow>
     r_w r' = w \<and> r_h r' = h \<and> (\<exists>r\<in>set (rects s). r_id r = r_id r' \<and> r_area r = r_area r')"
proof -
  assume a: "writeDims s i (Some (w, h)) = Inr s'" "r' \<in> set (rects s')" "Some (r_id r') = i"
  let ?f = "\<lambda>r. if Some (r_id r) = i then r\<lparr>r_w := w, r_h := h\<rparr> else r"
  from a(1) have "rects s' = map ?f (rects s)" by (auto simp: writeDims_def)
  with a(2) obtain r where r: "r \<in> set (rects s)" "r' = ?f r" by auto
  from r(2) a(3) have "Some (r_id r) = i" by (simp split: if_splits)
  with r(2) have "r' = r\<lparr>r_w := w, r_h := h\<rparr>" by simp
  with r(1) show ?thesis by auto
qed

lemma onMouseMove_resizeW:
  assumes "dragRef s = Some d" "dtype d = ResizeRectW" "did d = Some i" "i \<noteq> []"
    "orig d = Some (OrigRectDir (Some r0) dir)"
  shows "onMouseMove s x y =
     writeDims s (Some i) (Some (max 20 (r_w r0 + dirval dir * (x - startX d)),
        clamp (r_area r0 / max 20 (r_w r0 + dirval dir * (x - startX d))) 10 600))"
  using assms by (simp add: onMouseMove_def resizeW_dims_def Let_def)

lemma onMouseMove_resizeH:
  assumes "dragRef s = Some d" "dtype d = ResizeRectH" "did d = Some i" "i \<noteq> []"
    "orig d = Some (OrigRectDir (Some r0) dir)"
  shows "onMouseMove s x y =
     writeDims s (Some i) (Some (clamp (r_area r0 / max 10 (r_h r0 + dirval dir * (y - startY d))) 20 900,
        max 10 (r_h r0 + dirval dir * (y - startY d))))"
  using assms by (simp add: onMouseMove_def resizeH_dims_def Let_def)

lemma writeDims_Some_Inr: "\<exists>s'. writeDims s i (Some wh) = Inr s'"
  by (cases wh) (simp add: writeDims_def)

subsection \<open>Resizing keeps the area\<close>

text \<open>
  Claim C1. In a width-resize or height-resize drag whose snapshot agrees with the
  rectangles (\<open>drag_ok\<close>, which every run from a well-formed state keeps), a
  pointer-move in which neither the floor (20 for the width, 10 for the height) nor the
  clamp of the derived dimension (\<open>[10, 600]\<close> for the height, \<open>[20, 900]\<close> for the
  width) fires returns a state, and in it every rectangle with the drag's id has
  \<open>w * h = area\<close>.
\<close>

theorem resize_keeps_area:
  assumes ok: "drag_ok s"
    and d: "dragRef s = Some d" "did d = Some i" "i \<noteq> []"
      "orig d = Some (OrigRectDir (Some r0) dir)"
    and noclamp:
      "(dtype d = ResizeRectW \<and> 20 \<le> r_w r0 + dirval dir * (x - startX d) \<and>
          10 \<le> r_area r0 / (r_w r0 + dirval dir * (x - startX d)) \<and>
          r_area r0 / (r_w r0 + dirval dir * (x - startX d)) \<le> 600) \<or>
       (dtype d = ResizeRectH \<and> 10 \<le> r_h r0 + dirval dir * (y - startY d) \<and>
          20 \<le> r_area r0 / (r_h r0 + dirval dir * (y - startY d)) \<and>
          r_area r0 / (r_h r0 + dirval dir * (y - startY d)) \<le> 900)"
  shows "\<exists>s'. onMouseMove s x y = Inr s' \<and>
           (\<forall>r\<in>set (rects s'). r_id r = i \<longrightarrow> r_w r * r_h r = r_area r)"
  using noclamp
proof
  assume a: "dtype d = ResizeRectW \<and> 20 \<le> r_w r0 + dirval dir * (x - startX d) \<and>
          10 \<le> r_area r0 / (r_w r0 + dirval dir * (x - startX d)) \<and>
          r_area r0 / (r_w r0 + dirval dir * (x - startX d)) \<le> 600"
  define w where "w = r_w r0 + dirval dir * (x - startX d)"
  from a have w: "20 \<le> w" "10 \<le> r_area r0 / w" "r_area r0 / w \<le> 600" by (simp_all add: w_def)
  have mv: "onMouseMove s x y = writeDims s (Some i) (Some (w, r_area r0 / w))"
    using onMouseMove_resizeW [OF d(1) _ d(2-4), of x y] a w
    by (simp add: w_def [symmetric] clamp_def)
  obtain s' where s': "onMouseMove s x y = Inr s'"
    unfolding mv using writeDims_Some_Inr by blast
  have "r_w r * r_h r = r_area r" if r: "r \<in> set (rects s')" "r_id r = i" for r
  proof -
    from writeDims_Some [of s "Some i" w "r_area r0 / w" s' r] mv s' r
    obtain q where q: "r_w r = w" "r_h r = r_area r0 / w" "q \<in> set (rects s)" "r_id q = i"
      "r_area q = r_area r" by auto
    from drag_ok_snapshot_area [OF ok d(1) _ d(4) d(2) q(3,4)] a
    have "r_area q = r_area r0" by simp
    with q w show ?thesis by simp
  qed
  with s' show ?thesis by blast
next
  assume a: "dtype d = ResizeRectH \<and> 10 \<le> r_h r0 + dirval dir * (y - startY d) \<and>
          20 \<le> r_area r0 / (r_h r0 + dirval dir * (y - startY d)) \<and>
          r_area r0 / (r_h r0 + dirval dir * (y - startY d)) \<le> 900"
  define h where "h = r_h r0 + dirval dir * (y - startY d)"
  from a have h: "10 \<le> h" "20 \<le> r_area r0 / h" "r_area r0 / h \<le> 900" by (simp_all add: h_def)
  have mv: "onMouseMove s x y = writeDims s (Some i) (Some (r_area r0 / h, h))"
    using onMouseMove_resizeH [OF d(1) _ d(2-4), of x y] a h
    by (simp add: h_def [symmetric] clamp_def)
  obtain s' where s': "onMouseMove s x y = Inr s'"
    unfolding mv using writeDims_Some_Inr by blast
  have "r_w r * r_h r = r_area r" if r: "r \<in> set (rects s')" "r_id r = i" for r
  proof -
    from writeDims_Some [of s "Some i" "r_area r0 / h" h s' r] mv s' r
    obtain q where q: "r_w r = r_area r0 / h" "r_h r = h" "q \<in> set (rects s)" "r_id q = i"
      "r_area q = r_area r" by auto
    from drag_ok_snapshot_area [OF ok d(1) _ d(4) d(2) q(3,4)] a
    have "r_area q = r_area r0" by simp
    with q h show ?thesis by simp
  qed
  with s' show ?thesis by blast
qed


lemma find_R1: "find (\<lambda>r. r_id r = ''R1'') (rects initialState) = Some rectR1"
  by (simp add: initialState_def initialRects_eval rectR1_def)

lemma hd_initial: "hd (rects initialState) = rectR1" "rects initialState \<noteq> []"
  by (simp_all add: initialState_def initialRects_eval rectR1_def)

lemma writeDims_hd:
  "writeDims s (Some i) (Some (w, h)) = Inr s' \<Longrightarrow> rects s \<noteq> [] \<Longrightarrow> r_id (hd (rects s)) = i \<Longrightarrow>
    hd (rects s') = (hd (rects s))\<lparr>r_w := w, r_h := h\<rparr> \<and> rects s' \<noteq> []"
  by (cases "rects s") (auto simp: writeDims_def)

text \<open>The first rectangle of the initial state (120 by 60), its right width handle
  grabbed at \<open>(100, 100)\<close> and dragged to \<open>(150, 100)\<close>: 170 by \<open>7200 / 170\<close>.\<close>

theorem resize_keeps_area_witness:
  "\<exists>s'. onMouseMove (onMouseDownRectW initialState ''R1'' DirPos 100 100) 150 100 = Inr s' \<and>
        r_id (hd (rects s')) = ''R1'' \<and> r_w (hd (rects s')) = 170 \<and>
        r_h (hd (rects s')) = 720 / 17 \<and> r_area (hd (rects s')) = 7200 \<and>
        r_w (hd (rects s')) * r_h (hd (rects s')) = r_area (hd (rects s'))"
proof -
  let ?s = "onMouseDownRectW initialState ''R1'' DirPos 100 100"
  let ?d = "\<lparr>dtype = ResizeRectW, did = Some ''R1'', startX = 100, startY = 100,
             orig = Some (OrigRectDir (Some rectR1) DirPos)\<rparr>"
  have ok: "drag_ok ?s" using mouseDown_wf(2) [OF wf_initialState] by (simp add: wf_state_def)
  have d: "dragRef ?s = Some ?d" by (simp add: onMouseDownRectW_def find_R1)
  have rs: "rects ?s = rects initialState" by (simp add: onMouseDownRectW_def)
  from resize_keeps_area [OF ok d, of "''R1''" rectR1 DirPos 150 100]
  obtain s' where s': "onMouseMove ?s 150 100 = Inr s'"
    "\<forall>r\<in>set (rects s'). r_id r = ''R1'' \<longrightarrow> r_w r * r_h r = r_area r"
    by (auto simp: rectR1_def)
  have "writeDims ?s (Some ''R1'') (Some (170, 720 / 17)) = Inr s'"
    using onMouseMove_resizeW [OF d, of "''R1''" rectR1 DirPos 150 100] s'(1)
    by (simp add: rectR1_def clamp_def)
  from writeDims_hd [OF this] have hd: "hd (rects s') = rectR1\<lparr>r_w := 170, r_h := 720 / 17\<rparr>"
    "rects s' \<noteq> []"
    by (simp_all add: rs hd_initial) (simp_all add: rectR1_def)
  then have "hd (rects s') \<in> set (rects s')" "r_id (hd (rects s')) = ''R1''"
    using hd_in_set [of "rects s'"] by (simp_all add: rectR1_def)
  with s'(2) have "r_w (hd (rects s')) * r_h (hd (rects s')) = r_area (hd (rects s'))" by blast
  with s'(1) hd show ?thesis by (simp add: rectR1_def)
qed


subsection \<open>The floor of the width\<close>

text \<open>
  Claim C4. In a width-resize drag (snapshot agreeing with the rectangles), a
  pointer-move with \<open>snapshot.w + dir * dx < 20\<close> returns a state in which every
  rectangle with the drag's id has width exactly 20 and height
  \<open>clamp (area / 20) 10 600\<close>.
\<close>

theorem width_floor:
  assumes ok: "drag_ok s"
    and d: "dragRef s = Some d" "dtype d = ResizeRectW" "did d = Some i" "i \<noteq> []"
      "orig d = Some (OrigRectDir (Some r0) dir)"
    and below: "r_w r0 + dirval dir * (x - startX d) < 20"
  shows "\<exists>s'. onMouseMove s x y = Inr s' \<and>
           (\<forall>r\<in>set (rects s'). r_id r = i \<longrightarrow>
              r_w r = 20 \<and> r_h r = clamp (r_area r / 20) 10 600)"
proof -
  have mv: "onMouseMove s x y = writeDims s (Some i) (Some (20, clamp (r_area r0 / 20) 10 600))"
    using onMouseMove_resizeW [OF d, of x y] below by (simp add: max_def)
  obtain s' where s': "onMouseMove s x y = Inr s'"
    unfolding mv using writeDims_Some_Inr by blast
  have "r_w r = 20 \<and> r_h r = clamp (r_area r / 20) 10 600"
    if r: "r \<in> set (rects s')" "r_id r = i" for r
  proof -
    from writeDims_Some [of s "Some i" 20 "clamp (r_area r0 / 20) 10 600" s' r] mv s' r
    obtain q where q: "r_w r = 20" "r_h r = clamp (r_area r0 / 20) 10 600" "q \<in> set (rects s)"
      "r_id q = i" "r_area q = r_area r" by auto
    from drag_ok_snapshot_area [OF ok d(1) _ d(5) d(3) q(3,4)] d(2)
    have "r_area q = r_area r0" by simp
    with q show ?thesis by simp
  qed
  with s' show ?thesis by blast
qed

text \<open>The left width handle of the first rectangle dragged 150 to the right: the
  candidate width is \<open>120 - 150\<close>, the result 20 by 360.\<close>

theorem width_floor_witness:
  "\<exists>s'. onMouseMove (onMouseDownRectW initialState ''R1'' DirNeg 100 100) 250 100 = Inr s' \<and>
        r_id (hd (rects s')) = ''R1'' \<and> r_area (hd (rects s')) = 7200 \<and>
        r_w (hd (rects s')) = 20 \<and> r_h (hd (rects s')) = 360"
proof -
  let ?s = "onMouseDownRectW initialState ''R1'' DirNeg 100 100"
  let ?d = "\<lparr>dtype = ResizeRectW, did = Some ''R1'', startX = 100, startY = 100,
             orig = Some (OrigRectDir (Some rectR1) DirNeg)\<rparr>"
  have ok: "drag_ok ?s" using mouseDown_wf(2) [OF wf_initialState] by (simp add: wf_state_def)
  have d: "dragRef ?s = Some ?d" by (simp add: onMouseDownRectW_def find_R1)
  have rs: "rects ?s = rects initialState" by (simp add: onMouseDownRectW_def)
  from width_floor [OF ok d, of "''R1''" rectR1 DirNeg 250 100]
  obtain s' where s': "onMouseMove ?s 250 100 = Inr s'"
    "\<forall>r\<in>set (rects s'). r_id r = ''R1'' \<longrightarrow> r_w r = 20 \<and> r_h r = clamp (r_area r / 20) 10 600"
    by (auto simp: rectR1_def)
  have "writeDims ?s (Some ''R1'') (Some (20, 360)) = Inr s'"
    using onMouseMove_resizeW [OF d, of "''R1''" rectR1 DirNeg 250 100] s'(1)
    by (simp add: rectR1_def clamp_def)
  from writeDims_hd [OF this] have hd: "hd (rects s') = rectR1\<lparr>r_w := 20, r_h := 360\<rparr>"
    "rects s' \<noteq> []"
    by (simp_all add: rs hd_initial) (simp_all add: rectR1_def)
  then have "hd (rects s') \<in> set (rects s')" "r_id (hd (rects s')) = ''R1''"
    using hd_in_set [of "rects s'"] by (simp_all add: rectR1_def)
  with s'(2) have "r_w (hd (rects s')) = 20 \<and> r_h (hd (rects s')) = clamp (r_area (hd (rects s')) / 20) 10 600"
    by blast
  with s'(1) hd show ?thesis by (simp add: rectR1_def clamp_def)
qed


subsection \<open>Resize moves read the snapshot\<close>

lemma writeDims_width:
  "writeDims s (Some i) (Some (w, h)) = Inr s' \<Longrightarrow> r \<in> set (rects s') \<Longrightarrow> r_id r = i \<Longrightarrow> r_w r = w"
  using writeDims_Some [of s "Some i" w h s' r] by simp

text \<open>
  Claim C5. In a width-resize drag, two pointer-moves in a row both return a state,
  the drag is unchanged, and after each of them the width of the dragged rectangle is
  \<open>max 20 (snapshot.w + dir * (x - startX))\<close> for that move's own pointer position:
  the second width does not depend on the first move. The witness is the claim's
  example: origin \<open>(100, 100)\<close>, width 120, direction \<open>+1\<close>, moves to \<open>(150, 100)\<close> and
  \<open>(130, 100)\<close>, widths 170 and 150.
\<close>

theorem resize_width_from_snapshot:
  assumes d: "dragRef s = Some d" "dtype d = ResizeRectW" "did d = Some i" "i \<noteq> []"
      "orig d = Some (OrigRectDir (Some r0) dir)"
  shows "\<exists>s1 s2. onMouseMove s x1 y1 = Inr s1 \<and> onMouseMove s1 x2 y2 = Inr s2 \<and>
           dragRef s2 = dragRef s \<and> map r_id (rects s2) = map r_id (rects s) \<and>
           (\<forall>r\<in>set (rects s1). r_id r = i \<longrightarrow>
              r_w r = max 20 (r_w r0 + dirval dir * (x1 - startX d))) \<and>
           (\<forall>r\<in>set (rects s2). r_id r = i \<longrightarrow>
              r_w r = max 20 (r_w r0 + dirval dir * (x2 - startX d)))"
proof -
  let ?w1 = "max 20 (r_w r0 + dirval dir * (x1 - startX d))"
  let ?w2 = "max 20 (r_w r0 + dirval dir * (x2 - startX d))"
  let ?h1 = "clamp (r_area r0 / ?w1) 10 600"
  let ?h2 = "clamp (r_area r0 / ?w2) 10 600"
  have m1: "onMouseMove s x1 y1 = writeDims s (Some i) (Some (?w1, ?h1))"
    by (rule onMouseMove_resizeW [OF d])
  obtain s1 where s1': "writeDims s (Some i) (Some (?w1, ?h1)) = Inr s1"
    using writeDims_Some_Inr [of s "Some i" "(?w1, ?h1)"] by blast
  with m1 have s1: "onMouseMove s x1 y1 = Inr s1" by (rule trans)
  note f1 = onMouseMove_frame [OF s1]
  from f1 d(1) have d1: "dragRef s1 = Some d" by simp
  have m2: "onMouseMove s1 x2 y2 = writeDims s1 (Some i) (Some (?w2, ?h2))"
    by (rule onMouseMove_resizeW [OF d1 d(2-5)])
  obtain s2 where s2': "writeDims s1 (Some i) (Some (?w2, ?h2)) = Inr s2"
    using writeDims_Some_Inr [of s1 "Some i" "(?w2, ?h2)"] by blast
  with m2 have s2: "onMouseMove s1 x2 y2 = Inr s2" by (rule trans)
  note f2 = onMouseMove_frame [OF s2]
  have ids: "map r_id (rects s2) = map r_id (rects s)"
    using id_area_ids [of "rects s2" "rects s1"] id_area_ids [of "rects s1" "rects s"] f1 f2
    by simp
  have w1: "\<forall>r\<in>set (rects s1). r_id r = i \<longrightarrow> r_w r = ?w1"
    using writeDims_width [OF s1'] by blast
  have w2: "\<forall>r\<in>set (rects s2). r_id r = i \<longrightarrow> r_w r = ?w2"
    using writeDims_width [OF s2'] by blast
  from f1 f2 have "dragRef s2 = dragRef s" by simp
  with s1 s2 ids w1 w2 show ?thesis by blast
qed

theorem resize_width_from_snapshot_witness:
  "\<exists>s1 s2. onMouseMove (onMouseDownRectW initialState ''R1'' DirPos 100 100) 150 100 = Inr s1 \<and>
      onMouseMove s1 130 100 = Inr s2 \<and>
      r_id (hd (rects s1)) = ''R1'' \<and> r_w (hd (rects s1)) = 170 \<and>
      r_id (hd (rects s2)) = ''R1'' \<and> r_w (hd (rects s2)) = 150"
proof -
  let ?s = "onMouseDownRectW initialState ''R1'' DirPos 100 100"
  let ?d = "\<lparr>dtype = ResizeRectW, did = Some ''R1'', startX = 100, startY = 100,
             orig = Some (OrigRectDir (Some rectR1) DirPos)\<rparr>"
  have d: "dragRef ?s = Some ?d" by (simp add: onMouseDownRectW_def find_R1)
  have rs: "rects ?s = rects initialState" by (simp add: onMouseDownRectW_def)
  from resize_width_from_snapshot [OF d, of "''R1''" rectR1 DirPos 150 100 130 100]
  obtain s1 s2 where s: "onMouseMove ?s 150 100 = Inr s1" "onMouseMove s1 130 100 = Inr s2"
    "dragRef s2 = dragRef ?s"
    "\<forall>r\<in>set (rects s1). r_id r = ''R1'' \<longrightarrow> r_w r = 170"
    "\<forall>r\<in>set (rects s2). r_id r = ''R1'' \<longrightarrow> r_w r = 150"
    by (auto simp: rectR1_def)
  have i1: "map id_area (rects s1) = map id_area (rects initialState)"
    using onMouseMove_frame [OF s(1)] rs by simp
  then have i2: "map id_area (rects s2) = map id_area (rects initialState)"
    using onMouseMove_frame [OF s(2)] by simp
  have hd: "rs \<noteq> [] \<and> r_id (hd rs) = ''R1''"
    if "map id_area rs = map id_area (rects initialState)" for rs
    using that by (cases rs) (auto simp: initialState_def initialRects_eval id_area_def)
  from hd [OF i1] s(4) have "r_w (hd (rects s1)) = 170" using hd_in_set [of "rects s1"] by blast
  moreover from hd [OF i2] s(5) have "r_w (hd (rects s2)) = 150"
    using hd_in_set [of "rects s2"] by blast
  ultimately show ?thesis using s(1,2) hd [OF i1] hd [OF i2] by blast
qed

subsection \<open>A drag whose id names no rectangle\<close>

text \<open>
  Claim C10. If the drag is a move, width-resize or height-resize of an id that no
  rectangle has, a pointer-move returns the state it was given: rectangles, oval and
  drag are unchanged, and no error is reported.
\<close>

theorem unknown_target_noop:
  assumes "dragRef s = Some d" "did d = Some i"
    "dtype d = MoveRect \<or> dtype d = ResizeRectW \<or> dtype d = ResizeRectH"
    "\<forall>r\<in>set (rects s). r_id r \<noteq> i"
  shows "onMouseMove s x y = Inr s"
proof -
  from assms(2,4) have same: "map (\<lambda>r. if Some (r_id r) \<noteq> did d then r else f r) (rects s) = rects s"
    for f by (simp add: map_idI)
  from assms(2,4) have same': "map (\<lambda>r. if Some (r_id r) = did d then f r else r) (rects s) = rects s"
    for f by (simp add: map_idI)
  from assms(2,4) have none: "\<not> list_ex (\<lambda>r. Some (r_id r) = did d) (rects s)"
    by (simp add: list_ex_iff)
  have wd: "writeDims s (did d) wh = Inr s" for wh
    using same' none by (cases wh) (auto simp: writeDims_def)
  from assms(1,3) show ?thesis
    by (auto simp: onMouseMove_def Let_def same wd split: option.splits)
qed

theorem unknown_target_noop_witness:
  "onMouseMove (onMouseDownRectMove initialState ''R9'' 100 100) 150 130
     = Inr (onMouseDownRectMove initialState ''R9'' 100 100) \<and>
   onMouseMove (onMouseDownRectW initialState ''R9'' DirPos 100 100) 150 130
     = Inr (onMouseDownRectW initialState ''R9'' DirPos 100 100) \<and>
   onMouseMove (onMouseDownRectH initialState ''R9'' DirNeg 100 100) 150 130
     = Inr (onMouseDownRectH initialState ''R9'' DirNeg 100 100)"
proof -
  have none: "\<forall>r\<in>set (rects initialState). r_id r \<noteq> ''R9''"
    by (simp add: initialState_def initialRects_eval)
  let ?dm = "\<lparr>dtype = MoveRect, did = Some ''R9'', startX = 100, startY = 100,
     orig = map_option OrigRect (find (\<lambda>r. r_id r = ''R9'') (rects initialState))\<rparr>"
  let ?dw = "\<lparr>dtype = ResizeRectW, did = Some ''R9'', startX = 100, startY = 100,
     orig = Some (OrigRectDir (find (\<lambda>r. r_id r = ''R9'') (rects initialState)) DirPos)\<rparr>"
  let ?dh = "\<lparr>dtype = ResizeRectH, did = Some ''R9'', startX = 100, startY = 100,
     orig = Some (OrigRectDir (find (\<lambda>r. r_id r = ''R9'') (rects initialState)) DirNeg)\<rparr>"
  have "onMouseMove (onMouseDownRectMove initialState ''R9'' 100 100) 150 130
     = Inr (onMouseDownRectMove initialState ''R9'' 100 100)"
    using none
    by (intro unknown_target_noop [of _ ?dm "''R9''"]) (simp_all add: onMouseDownRectMove_def)
  moreover have "onMouseMove (onMouseDownRectW initialState ''R9'' DirPos 100 100) 150 130
     = Inr (onMouseDownRectW initialState ''R9'' DirPos 100 100)"
    using none
    by (intro unknown_target_noop [of _ ?dw "''R9''"]) (simp_all add: onMouseDownRectW_def)
  moreover have "onMouseMove (onMouseDownRectH initialState ''R9'' DirNeg 100 100) 150 130
     = Inr (onMouseDownRectH initialState ''R9'' DirNeg 100 100)"
    using none
    by (intro unknown_target_noop [of _ ?dh "''R9''"]) (simp_all add: onMouseDownRectH_def)
  ultimately show ?thesis by simp
qed


subsection \<open>Reconciliation on pointer-up\<close>

lemma recenter_inside:
  "insideEllipse (r_cx r) (r_cy r) (o_cx ov) (o_cy ov) (o_rx ov) (o_ry ov) \<Longrightarrow> recenter ov r = r"
  by (simp add: recenter_def)

lemma recenter_outside:
  "\<not> insideEllipse (r_cx r) (r_cy r) (o_cx ov) (o_cy ov) (o_rx ov) (o_ry ov) \<Longrightarrow>
   recenter ov r =
     r\<lparr>r_cx := clamp (r_cx r) (o_cx ov - o_rx ov + r_w r / 2) (o_cx ov + o_rx ov - r_w r / 2),
       r_cy := clamp (r_cy r) (o_cy ov - o_ry ov + r_h r / 2) (o_cy ov + o_ry ov - r_h r / 2)\<rparr>"
  by (simp add: recenter_def Let_def)

text \<open>
  Claim C6. Pointer-up and pointer-leave are the same handler; it clears the drag,
  leaves the oval alone and treats the rectangles one by one: a rectangle whose centre
  passes \<open>insideEllipse\<close> is unchanged; any other gets \<open>cx\<close> clamped to \<open>[ox - rx + w/2, ox + rx - w/2]\<close> and
  \<open>cy\<close> clamped to \<open>[oy - ry + h/2, oy + ry - h/2]\<close>, width and height untouched. When
  every centre is inside, the list of rectangles is unchanged.
\<close>

theorem onMouseUp_reconciles:
  "step s MouseUp = Inr (onMouseUp s) \<and> step s MouseLeave = Inr (onMouseUp s) \<and>
   dragRef (onMouseUp s) = None \<and> oval (onMouseUp s) = oval s \<and>
   length (rects (onMouseUp s)) = length (rects s) \<and>
   (\<forall>k<length (rects s).
      (if insideEllipse (r_cx (rects s ! k)) (r_cy (rects s ! k))
            (o_cx (oval s)) (o_cy (oval s)) (o_rx (oval s)) (o_ry (oval s))
       then rects (onMouseUp s) ! k = rects s ! k
       else rects (onMouseUp s) ! k =
              (rects s ! k)
                \<lparr>r_cx := clamp (r_cx (rects s ! k))
                            (o_cx (oval s) - o_rx (oval s) + r_w (rects s ! k) / 2)
                            (o_cx (oval s) + o_rx (oval s) - r_w (rects s ! k) / 2),
                  r_cy := clamp (r_cy (rects s ! k))
                            (o_cy (oval s) - o_ry (oval s) + r_h (rects s ! k) / 2)
                            (o_cy (oval s) + o_ry (oval s) - r_h (rects s ! k) / 2)\<rparr>) \<and>
      r_w (rects (onMouseUp s) ! k) = r_w (rects s ! k) \<and>
      r_h (rects (onMouseUp s) ! k) = r_h (rects s ! k)) \<and>
   ((\<forall>r\<in>set (rects s). insideEllipse (r_cx r) (r_cy r)
         (o_cx (oval s)) (o_cy (oval s)) (o_rx (oval s)) (o_ry (oval s)))
      \<longrightarrow> rects (onMouseUp s) = rects s)"
proof -
  have a: "dragRef (onMouseUp s) = None" "oval (onMouseUp s) = oval s"
    "length (rects (onMouseUp s)) = length (rects s)"
    by (simp_all add: onMouseUp_def)
  have nth: "rects (onMouseUp s) ! k = recenter (oval s) (rects s ! k)" if "k < length (rects s)" for k
    using that by (simp add: onMouseUp_def)
  have b: "\<forall>k<length (rects s).
      (if insideEllipse (r_cx (rects s ! k)) (r_cy (rects s ! k))
            (o_cx (oval s)) (o_cy (oval s)) (o_rx (oval s)) (o_ry (oval s))
       then rects (onMouseUp s) ! k = rects s ! k
       else rects (onMouseUp s) ! k =
              (rects s ! k)
                \<lparr>r_cx := clamp (r_cx (rects s ! k))
                            (o_cx (oval s) - o_rx (oval s) + r_w (rects s ! k) / 2)
                            (o_cx (oval s) + o_rx (oval s) - r_w (rects s ! k) / 2),
                  r_cy := clamp (r_cy (rects s ! k))
                            (o_cy (oval s) - o_ry (oval s) + r_h (rects s ! k) / 2)
                            (o_cy (oval s) + o_ry (oval s) - r_h (rects s ! k) / 2)\<rparr>) \<and>
      r_w (rects (onMouseUp s) ! k) = r_w (rects s ! k) \<and>
      r_h (rects (onMouseUp s) ! k) = r_h (rects s ! k)"
  proof (intro allI impI)
    fix k assume k: "k < length (rects s)"
    show "(if insideEllipse (r_cx (rects s ! k)) (r_cy (rects s ! k))
            (o_cx (oval s)) (o_cy (oval s)) (o_rx (oval s)) (o_ry (oval s))
       then rects (onMouseUp s) ! k = rects s ! k
       else rects (onMouseUp s) ! k =
              (rects s ! k)
                \<lparr>r_cx := clamp (r_cx (rects s ! k))
                            (o_cx (oval s) - o_rx (oval s) + r_w (rects s ! k) / 2)
                            (o_cx (oval s) + o_rx (oval s) - r_w (rects s ! k) / 2),
                  r_cy := clamp (r_cy (rects s ! k))
                            (o_cy (oval s) - o_ry (oval s) + r_h (rects s ! k) / 2)
                            (o_cy (oval s) + o_ry (oval s) - r_h (rects s ! k) / 2)\<rparr>) \<and>
      r_w (rects (onMouseUp s) ! k) = r_w (rects s ! k) \<and>
      r_h (rects (onMouseUp s) ! k) = r_h (rects s ! k)"
      unfolding nth [OF k]
      by (cases "insideEllipse (r_cx (rects s ! k)) (r_cy (rects s ! k))
            (o_cx (oval s)) (o_cy (oval s)) (o_rx (oval s)) (o_ry (oval s))")
         (simp_all add: recenter_inside recenter_outside)
  qed
  have c: "(\<forall>r\<in>set (rects s). insideEllipse (r_cx r) (r_cy r)
         (o_cx (oval s)) (o_cy (oval s)) (o_rx (oval s)) (o_ry (oval s)))
      \<longrightarrow> rects (onMouseUp s) = rects s"
    by (simp add: onMouseUp_def recenter_inside map_idI)
  have e: "step s MouseUp = Inr (onMouseUp s)" "step s MouseLeave = Inr (onMouseUp s)"
    by simp_all
  from e a b c show ?thesis by blast
qed

text \<open>The state \<open>draggedOut\<close> is reached by a pointer-down and a pointer-move.\<close>

lemma run_draggedOut:
  "run initialState [MouseDownRectMove ''R1'' 500 100, MouseMove 100 100] = Inr draggedOut"
  by (simp add: onMouseDownRectMove_def onMouseMove_def find_R1 draggedOut_def moveRectBy_def
      clamp_def canvasW_def canvasH_def initialState_def initialRects_eval rectR1_def)

theorem onMouseUp_reconciles_witness:
  "rects (onMouseUp draggedOut) ! 0 = rectR1\<lparr>r_cx := 220\<rparr> \<and>
   rects (onMouseUp draggedOut) ! 1 = rects draggedOut ! 1 \<and>
   dragRef (onMouseUp draggedOut) = None \<and>
   rects (onMouseUp initialState) = rects initialState"
proof -
  have ov: "oval draggedOut = initialOval" by (simp add: draggedOut_def initialState_def)
  have r0: "rects draggedOut ! 0 = rectR1\<lparr>r_cx := 0\<rparr>" by (simp add: draggedOut_def)
  have r1: "rects draggedOut ! 1 = rects initialState ! 1"
    by (simp add: draggedOut_def initialState_def initialRects_eval)
  have len: "length (rects draggedOut) = 4"
    by (simp add: draggedOut_def initialState_def initialRects_eval)
  have out0: "\<not> insideEllipse (r_cx (rects draggedOut ! 0)) (r_cy (rects draggedOut ! 0))
            (o_cx (oval draggedOut)) (o_cy (oval draggedOut)) (o_rx (oval draggedOut)) (o_ry (oval draggedOut))"
    by (simp add: r0 ov rectR1_def initialOval_def insideEllipse_def canvasW_def canvasH_def
        Let_def)
  have in1: "insideEllipse (r_cx (rects draggedOut ! 1)) (r_cy (rects draggedOut ! 1))
            (o_cx (oval draggedOut)) (o_cy (oval draggedOut)) (o_rx (oval draggedOut)) (o_ry (oval draggedOut))"
    unfolding r1 ov
    by (simp add: initialOval_def insideEllipse_def canvasW_def canvasH_def
        Let_def initialState_def initialRects_eval)
  have inall: "\<forall>r\<in>set (rects initialState). insideEllipse (r_cx r) (r_cy r)
         (o_cx (oval initialState)) (o_cy (oval initialState)) (o_rx (oval initialState))
         (o_ry (oval initialState))"
    by (simp add: initialOval_def insideEllipse_def canvasW_def canvasH_def
        Let_def initialState_def initialRects_eval)
  note t = onMouseUp_reconciles [of draggedOut]
  from t len out0 have "rects (onMouseUp draggedOut) ! 0 = rectR1\<lparr>r_cx := 220\<rparr>"
    by (simp add: r0 ov rectR1_def initialOval_def clamp_def canvasW_def canvasH_def)
  moreover from t len in1 have "rects (onMouseUp draggedOut) ! 1 = rects draggedOut ! 1"
    by simp
  moreover from t have "dragRef (onMouseUp draggedOut) = None" by simp
  moreover from onMouseUp_reconciles [of initialState] inall
  have "rects (onMouseUp initialState) = rects initialState" by blast
  ultimately show ?thesis by simp
qed


subsection \<open>The two buttons keep the area\<close>

lemma normalizeRect_area:
  assumes "rect_pos r"
  shows "r_w (normalizeRect r) = sqrt (r_area r * (r_w r / r_h r))"
    and "r_h (normalizeRect r) = r_area r / r_w (normalizeRect r)"
    and "r_w (normalizeRect r) * r_h (normalizeRect r) = r_area (normalizeRect r)"
proof -
  from assms have "0 < r_area r * (r_w r / r_h r)" by (simp add: rect_pos_def)
  then have "0 < sqrt (r_area r * (r_w r / r_h r))" by (rule real_sqrt_gt_zero)
  then have "sqrt (r_area r * (r_w r / r_h r)) \<noteq> 0" by linarith
  then show "r_w (normalizeRect r) * r_h (normalizeRect r) = r_area (normalizeRect r)"
    by (simp add: normalizeRect_def Let_def)
qed (simp_all add: normalizeRect_def Let_def)

lemma normalizeRect_consistent:
  assumes "0 < r_w r" "0 < r_h r" "r_w r * r_h r = r_area r"
  shows "normalizeRect r = r"
proof -
  from assms have "r_area r * (r_w r / r_h r) = r_w r * r_w r" by (simp add: field_simps)
  with assms(1) have w: "sqrt (r_area r * (r_w r / r_h r)) = r_w r" by simp
  from assms have "r_area r / r_w r = r_h r" by (simp add: field_simps)
  with w show ?thesis by (simp add: normalizeRect_def Let_def)
qed

lemma aspect_range: "0.5 \<le> clamp (u * 3 + 0.5) 0.5 3.5 \<and> clamp (u * 3 + 0.5) 0.5 3.5 \<le> 3.5"
  by (simp add: clamp_def max_def min_def)

lemma randomizeRect_area:
  assumes "0 < r_area r"
  shows "r_h (randomizeRect u r) = sqrt (r_area r / clamp (u * 3 + 0.5) 0.5 3.5)"
    and "r_w (randomizeRect u r) = r_area r / r_h (randomizeRect u r)"
    and "r_w (randomizeRect u r) * r_h (randomizeRect u r) = r_area (randomizeRect u r)"
proof -
  have "0 < clamp (u * 3 + 0.5) 0.5 3.5" using aspect_range [of u] by linarith
  with assms have "0 < r_area r / clamp (u * 3 + 0.5) 0.5 3.5" by simp
  then have "0 < sqrt (r_area r / clamp (u * 3 + 0.5) 0.5 3.5)" by (rule real_sqrt_gt_zero)
  then have "sqrt (r_area r / clamp (u * 3 + 0.5) 0.5 3.5) \<noteq> 0" by linarith
  then show "r_w (randomizeRect u r) * r_h (randomizeRect u r) = r_area (randomizeRect u r)"
    by (simp add: randomizeRect_def Let_def)
qed (simp_all add: randomizeRect_def Let_def)

text \<open>
  Claim C7. On rectangles with positive width, height and area (which every run from
  a well-formed state keeps) both buttons return a state. After ``Normalize sizes''
  each rectangle has \<open>w = sqrt (area * (w0 / h0))\<close>, \<open>h = area / w\<close> and
  \<open>w * h = area\<close>; after ``Randomize aspect'' each has, for its aspect
  \<open>clamp (rnd k * 3 + 0.5) 0.5 3.5\<close> in \<open>[0.5, 3.5]\<close>, \<open>h = sqrt (area / aspect)\<close>,
  \<open>w = area / h\<close> and \<open>w * h = area\<close>. A rectangle that already has \<open>w * h = area\<close>,
  such as 120 by 60 with area 7200, is left unchanged by the normalisation.
\<close>

theorem batch_ops_keep_area:
  assumes pos: "list_all rect_pos (rects s)"
  shows "(\<exists>s'. normalizeSizes s = Inr s' \<and> length (rects s') = length (rects s) \<and>
            (\<forall>k<length (rects s).
               r_w (rects s' ! k) = sqrt (r_area (rects s ! k) * (r_w (rects s ! k) / r_h (rects s ! k))) \<and>
               r_h (rects s' ! k) = r_area (rects s ! k) / r_w (rects s' ! k) \<and>
               r_w (rects s' ! k) * r_h (rects s' ! k) = r_area (rects s' ! k))) \<and>
         (\<exists>s'. randomizeAspect s rnd = Inr s' \<and> length (rects s') = length (rects s) \<and>
            (\<forall>k<length (rects s).
               0.5 \<le> clamp (rnd k * 3 + 0.5) 0.5 3.5 \<and> clamp (rnd k * 3 + 0.5) 0.5 3.5 \<le> 3.5 \<and>
               r_h (rects s' ! k) = sqrt (r_area (rects s ! k) / clamp (rnd k * 3 + 0.5) 0.5 3.5) \<and>
               r_w (rects s' ! k) = r_area (rects s ! k) / r_h (rects s' ! k) \<and>
               r_w (rects s' ! k) * r_h (rects s' ! k) = r_area (rects s' ! k))) \<and>
         (0 < r_w r \<and> 0 < r_h r \<and> r_w r * r_h r = r_area r \<longrightarrow> normalizeRect r = r)"
proof (intro conjI)
  let ?n = "s\<lparr>rects := map normalizeRect (rects s)\<rparr>"
  have n: "normalizeSizes s = Inr ?n" using pos by (rule normalizeSizes_total)
  have "\<forall>k<length (rects s).
               r_w (rects ?n ! k) = sqrt (r_area (rects s ! k) * (r_w (rects s ! k) / r_h (rects s ! k))) \<and>
               r_h (rects ?n ! k) = r_area (rects s ! k) / r_w (rects ?n ! k) \<and>
               r_w (rects ?n ! k) * r_h (rects ?n ! k) = r_area (rects ?n ! k)"
  proof (intro allI impI)
    fix k assume k: "k < length (rects s)"
    with pos have "rect_pos (rects s ! k)" by (simp add: list_all_length)
    from normalizeRect_area [OF this] k
    show "r_w (rects ?n ! k) = sqrt (r_area (rects s ! k) * (r_w (rects s ! k) / r_h (rects s ! k))) \<and>
               r_h (rects ?n ! k) = r_area (rects s ! k) / r_w (rects ?n ! k) \<and>
               r_w (rects ?n ! k) * r_h (rects ?n ! k) = r_area (rects ?n ! k)"
      by simp
  qed
  from n this show "\<exists>s'. normalizeSizes s = Inr s' \<and> length (rects s') = length (rects s) \<and>
            (\<forall>k<length (rects s).
               r_w (rects s' ! k) = sqrt (r_area (rects s ! k) * (r_w (rects s ! k) / r_h (rects s ! k))) \<and>
               r_h (rects s' ! k) = r_area (rects s ! k) / r_w (rects s' ! k) \<and>
               r_w (rects s' ! k) * r_h (rects s' ! k) = r_area (rects s' ! k))"
    by (intro exI [of _ ?n] conjI) (assumption, simp, assumption)
next
  let ?m = "s\<lparr>rects := map2 (\<lambda>k r. randomizeRect (rnd k) r) [0 ..< length (rects s)] (rects s)\<rparr>"
  have m: "randomizeAspect s rnd = Inr ?m" using pos
    by (simp add: randomizeAspect_def list_all_iff rect_pos_def)
  have "\<forall>k<length (rects s).
               0.5 \<le> clamp (rnd k * 3 + 0.5) 0.5 3.5 \<and> clamp (rnd k * 3 + 0.5) 0.5 3.5 \<le> 3.5 \<and>
               r_h (rects ?m ! k) = sqrt (r_area (rects s ! k) / clamp (rnd k * 3 + 0.5) 0.5 3.5) \<and>
               r_w (rects ?m ! k) = r_area (rects s ! k) / r_h (rects ?m ! k) \<and>
               r_w (rects ?m ! k) * r_h (rects ?m ! k) = r_area (rects ?m ! k)"
  proof (intro allI impI)
    fix k assume k: "k < length (rects s)"
    with pos have "0 < r_area (rects s ! k)" by (simp add: list_all_length rect_pos_def)
    from randomizeRect_area [OF this, of "rnd k"] k aspect_range [of "rnd k"]
    show "0.5 \<le> clamp (rnd k * 3 + 0.5) 0.5 3.5 \<and> clamp (rnd k * 3 + 0.5) 0.5 3.5 \<le> 3.5 \<and>
               r_h (rects ?m ! k) = sqrt (r_area (rects s ! k) / clamp (rnd k * 3 + 0.5) 0.5 3.5) \<and>
               r_w (rects ?m ! k) = r_area (rects s ! k) / r_h (rects ?m ! k) \<and>
               r_w (rects ?m ! k) * r_h (rects ?m ! k) = r_area (rects ?m ! k)"
      by simp
  qed
  from m this show "\<exists>s'. randomizeAspect s rnd = Inr s' \<and> length (rects s') = length (rects s) \<and>
            (\<forall>k<length (rects s).
               0.5 \<le> clamp (rnd k * 3 + 0.5) 0.5 3.5 \<and> clamp (rnd k * 3 + 0.5) 0.5 3.5 \<le> 3.5 \<and>
               r_h (rects s' ! k) = sqrt (r_area (rects s ! k) / clamp (rnd k * 3 + 0.5) 0.5 3.5) \<and>
               r_w (rects s' ! k) = r_area (rects s ! k) / r_h (rects s' ! k) \<and>
               r_w (rects s' ! k) * r_h (rects s' ! k) = r_area (rects s' ! k))"
    by (intro exI [of _ ?m] conjI) (assumption, simp, assumption)
next
  show "0 < r_w r \<and> 0 < r_h r \<and> r_w r * r_h r = r_area r \<longrightarrow> normalizeRect r = r"
    using normalizeRect_consistent by blast
qed


lemma sqrt_14400: "sqrt 14400 = 120"
  by (rule real_sqrt_unique) simp_all

lemma initial_pos: "list_all rect_pos (rects initialState)"
  using wf_initialState by (simp add: wf_state_def rects_ok_def)

lemma initial_nth0: "rects initialState ! 0 = rectR1" "0 < length (rects initialState)"
  using hd_initial by (simp_all add: hd_conv_nth)

theorem batch_ops_keep_area_witness:
  "(\<exists>s'. normalizeSizes initialState = Inr s' \<and>
      r_w (rects s' ! 0) = 120 \<and> r_h (rects s' ! 0) = 60 \<and>
      r_w (rects s' ! 0) * r_h (rects s' ! 0) = r_area (rects s' ! 0)) \<and>
   (\<exists>s'. randomizeAspect initialState (\<lambda>k. 0) = Inr s' \<and>
      r_w (rects s' ! 0) = 60 \<and> r_h (rects s' ! 0) = 120 \<and>
      r_w (rects s' ! 0) * r_h (rects s' ! 0) = r_area (rects s' ! 0)) \<and>
   normalizeRect rectR1 = rectR1"
proof -
  note t = batch_ops_keep_area [OF initial_pos, of "\<lambda>k. 0" rectR1]
  from t obtain s1 where s1: "normalizeSizes initialState = Inr s1"
    "\<forall>k<length (rects initialState).
        r_w (rects s1 ! k) = sqrt (r_area (rects initialState ! k) *
           (r_w (rects initialState ! k) / r_h (rects initialState ! k))) \<and>
        r_h (rects s1 ! k) = r_area (rects initialState ! k) / r_w (rects s1 ! k) \<and>
        r_w (rects s1 ! k) * r_h (rects s1 ! k) = r_area (rects s1 ! k)"
    by blast
  from s1(2) [rule_format, of 0] initial_nth0(2)
  have a0: "r_w (rects s1 ! 0) = sqrt (r_area rectR1 * (r_w rectR1 / r_h rectR1))"
    "r_h (rects s1 ! 0) = r_area rectR1 / r_w (rects s1 ! 0)"
    and a': "r_w (rects s1 ! 0) * r_h (rects s1 ! 0) = r_area (rects s1 ! 0)"
    unfolding initial_nth0(1) by blast+
  from a0(1) have aw: "r_w (rects s1 ! 0) = 120" by (simp add: rectR1_def sqrt_14400)
  with a0(2) have ah: "r_h (rects s1 ! 0) = 60" by (simp add: rectR1_def)
  note a = aw ah
  from t obtain s2 where s2: "randomizeAspect initialState (\<lambda>k. 0) = Inr s2"
    "\<forall>k<length (rects initialState).
        0.5 \<le> clamp (0 * 3 + 0.5) 0.5 3.5 \<and> clamp (0 * 3 + 0.5) 0.5 3.5 \<le> 3.5 \<and>
        r_h (rects s2 ! k) = sqrt (r_area (rects initialState ! k) / clamp (0 * 3 + 0.5) 0.5 3.5) \<and>
        r_w (rects s2 ! k) = r_area (rects initialState ! k) / r_h (rects s2 ! k) \<and>
        r_w (rects s2 ! k) * r_h (rects s2 ! k) = r_area (rects s2 ! k)"
    by blast
  have asp: "clamp (0 * 3 + 0.5) 0.5 3.5 = 1 / 2" by (simp add: clamp_def)
  from s2(2) [rule_format, of 0] initial_nth0(2)
  have b0: "r_h (rects s2 ! 0) = sqrt (r_area rectR1 / (1 / 2))"
    "r_w (rects s2 ! 0) = r_area rectR1 / r_h (rects s2 ! 0)"
    and b': "r_w (rects s2 ! 0) * r_h (rects s2 ! 0) = r_area (rects s2 ! 0)"
    unfolding initial_nth0(1) asp by blast+
  from b0(1) have bh: "r_h (rects s2 ! 0) = 120" by (simp add: rectR1_def sqrt_14400)
  with b0(2) have bw: "r_w (rects s2 ! 0) = 60" by (simp add: rectR1_def)
  note b = bh bw
  from t have c: "normalizeRect rectR1 = rectR1" by (simp add: rectR1_def)
  from s1(1) a a' s2(1) b b' c show ?thesis by blast
qed

subsection \<open>The two buttons change only width and height\<close>

text \<open>
  Claim C9. ``Normalize sizes'' and ``Randomize aspect'' leave the oval, the drag and,
  of every rectangle, the id, centre, area and colour as they were: no centre is
  pulled back, whatever the new dimensions. In the witness the first rectangle's
  centre is outside the oval before and after.
\<close>

theorem batch_ops_frame:
  "(normalizeSizes s = Inr s' \<longrightarrow>
      oval s' = oval s \<and> dragRef s' = dragRef s \<and>
      map rect_frame (rects s') = map rect_frame (rects s)) \<and>
   (randomizeAspect s rnd = Inr s'' \<longrightarrow>
      oval s'' = oval s \<and> dragRef s'' = dragRef s \<and>
      map rect_frame (rects s'') = map rect_frame (rects s))"
proof (intro conjI impI)
  assume "normalizeSizes s = Inr s'"
  then have s': "s' = s\<lparr>rects := map normalizeRect (rects s)\<rparr>"
    by (simp add: normalizeSizes_def split: if_splits)
  have "rect_frame (normalizeRect r) = rect_frame r" for r
    by (simp add: rect_frame_def normalizeRect_def Let_def)
  with s' show "oval s' = oval s" "dragRef s' = dragRef s"
    "map rect_frame (rects s') = map rect_frame (rects s)"
    by simp_all
next
  assume "randomizeAspect s rnd = Inr s''"
  then have s'': "s'' = s\<lparr>rects := map2 (\<lambda>k r. randomizeRect (rnd k) r)
                                [0 ..< length (rects s)] (rects s)\<rparr>"
    by (simp add: randomizeAspect_def split: if_splits)
  have fr: "rect_frame (randomizeRect u r) = rect_frame r" for u r
    by (simp add: rect_frame_def randomizeRect_def Let_def)
  have "map rect_frame (map2 (\<lambda>k r. randomizeRect (rnd k) r) [0 ..< length rs] rs)
          = map rect_frame rs" for rs
    by (rule nth_equalityI) (simp_all add: fr)
  with s'' show "oval s'' = oval s" "dragRef s'' = dragRef s"
    "map rect_frame (rects s'') = map rect_frame (rects s)"
    by simp_all
qed

lemma draggedOut_pos: "list_all rect_pos (rects draggedOut)"
  by (simp add: draggedOut_def initialState_def initialRects_eval rect_pos_def rectR1_def)

theorem batch_ops_frame_witness:
  "\<not> insideEllipse (r_cx (rects draggedOut ! 0)) (r_cy (rects draggedOut ! 0))
       (o_cx (oval draggedOut)) (o_cy (oval draggedOut)) (o_rx (oval draggedOut))
       (o_ry (oval draggedOut)) \<and>
   (\<exists>s'. normalizeSizes draggedOut = Inr s' \<and> oval s' = oval draggedOut \<and>
      map rect_frame (rects s') = map rect_frame (rects draggedOut) \<and>
      r_cx (rects s' ! 0) = 0) \<and>
   (\<exists>s'. randomizeAspect draggedOut (\<lambda>k. 0) = Inr s' \<and> oval s' = oval draggedOut \<and>
      map rect_frame (rects s') = map rect_frame (rects draggedOut) \<and>
      r_cx (rects s' ! 0) = 0 \<and> r_w (rects s' ! 0) = 60 \<and> r_h (rects s' ! 0) = 120)"
proof -
  have out0: "\<not> insideEllipse (r_cx (rects draggedOut ! 0)) (r_cy (rects draggedOut ! 0))
       (o_cx (oval draggedOut)) (o_cy (oval draggedOut)) (o_rx (oval draggedOut))
       (o_ry (oval draggedOut))"
    by (simp add: draggedOut_def initialState_def rectR1_def initialOval_def insideEllipse_def
        canvasW_def canvasH_def Let_def)
  have cx: "r_cx (rs ! 0) = 0" if "map rect_frame rs = map rect_frame (rects draggedOut)" for rs
  proof -
    from that have "rect_frame (rs ! 0) = rect_frame (rects draggedOut ! 0)"
      by (cases rs) (simp_all add: draggedOut_def)
    then show ?thesis by (simp add: rect_frame_def draggedOut_def)
  qed
  let ?n = "draggedOut\<lparr>rects := map normalizeRect (rects draggedOut)\<rparr>"
  have n: "normalizeSizes draggedOut = Inr ?n" using draggedOut_pos by (rule normalizeSizes_total)
  let ?m = "draggedOut\<lparr>rects := map2 (\<lambda>k r. randomizeRect 0 r)
              [0 ..< length (rects draggedOut)] (rects draggedOut)\<rparr>"
  have m: "randomizeAspect draggedOut (\<lambda>k. 0) = Inr ?m" using draggedOut_pos
    by (simp add: randomizeAspect_def list_all_iff rect_pos_def)
  note t = batch_ops_frame [of draggedOut ?n "\<lambda>k. 0" ?m]
  from t n have fn: "oval ?n = oval draggedOut"
    "map rect_frame (rects ?n) = map rect_frame (rects draggedOut)" by blast+
  from t m have fm: "oval ?m = oval draggedOut"
    "map rect_frame (rects ?m) = map rect_frame (rects draggedOut)" by blast+
  have dims: "r_w (rects ?m ! 0) = 60" "r_h (rects ?m ! 0) = 120"
    by (simp_all add: draggedOut_def randomizeRect_def rectR1_def clamp_def sqrt_14400
        initialState_def initialRects_eval)
  from out0 n fn cx [OF fn(2)] m fm cx [OF fm(2)] dims show ?thesis by blast
qed


subsection \<open>The radii of the oval\<close>

lemma onMouseMove_oval_cases:
  assumes "onMouseMove s x y = Inr s'"
  shows "oval s' = oval s \<or>
    (\<exists>d ov dir. dragRef s = Some d \<and> orig d = Some (OrigOval ov dir) \<and>
       ((dtype d = ResizeOvalRX \<and>
         oval s' = (oval s)\<lparr>o_rx := clamp (o_rx ov + dirval dir * (x - startX d)) 60 (canvasW / 2 - 40)\<rparr>) \<or>
        (dtype d = ResizeOvalRY \<and>
         oval s' = (oval s)\<lparr>o_ry := clamp (o_ry ov + dirval dir * (y - startY d)) 60 (canvasH / 2 - 40)\<rparr>)))"
proof (cases "dragRef s")
  case None
  with assms show ?thesis by (simp add: onMouseMove_def)
next
  case (Some d)
  show ?thesis
  proof (cases "orig d")
    case None
    with Some assms show ?thesis by (simp add: onMouseMove_def)
  next
    case og: (Some og)
    show ?thesis
    proof (cases "dtype d")
      case MoveRect
      with assms Some og show ?thesis
        by (auto simp: onMouseMove_def Let_def split: if_splits)
    next
      case ResizeRectW
      with assms Some og show ?thesis
        by (auto simp: onMouseMove_def Let_def split: if_splits dest: writeDims_frame)
    next
      case ResizeRectH
      with assms Some og show ?thesis
        by (auto simp: onMouseMove_def Let_def split: if_splits dest: writeDims_frame)
    next
      case ResizeOvalRX
      with assms Some og show ?thesis
        by (cases og) (auto simp: onMouseMove_def Let_def resizeRX_val_def split: option.splits)
    next
      case ResizeOvalRY
      with assms Some og show ?thesis
        by (cases og) (auto simp: onMouseMove_def Let_def resizeRY_val_def split: option.splits)
    qed
  qed
qed

lemma clamp_radii:
  "radii_ok ov \<Longrightarrow> radii_ok (ov\<lparr>o_rx := clamp v 60 (canvasW / 2 - 40)\<rparr>)"
  "radii_ok ov \<Longrightarrow> radii_ok (ov\<lparr>o_ry := clamp v 60 (canvasH / 2 - 40)\<rparr>)"
  by (simp_all add: radii_ok_def clamp_def canvasW_def canvasH_def)

lemma step_oval_cases:
  assumes "step s e = Inr s'" "oval s' \<noteq> oval s"
  shows "\<exists>x y d. e = MouseMove x y \<and> dragRef s = Some d \<and>
           (dtype d = ResizeOvalRX \<or> dtype d = ResizeOvalRY)"
proof (cases e)
  case (MouseMove x y)
  with assms onMouseMove_oval_cases [of s x y s'] show ?thesis by auto
next
  case NormalizeClick
  with assms normalizeSizes_frame [of s s'] show ?thesis by simp
next
  case (RandomizeClick rnd)
  with assms randomize_frame [of s rnd s'] show ?thesis by simp
qed (use assms in \<open>auto simp: onMouseDownRectMove_def onMouseDownRectW_def onMouseDownRectH_def
      onMouseDownOvalRX_def onMouseDownOvalRY_def onMouseUp_def\<close>)

lemma step_radii: "step s e = Inr s' \<Longrightarrow> radii_ok (oval s) \<Longrightarrow> radii_ok (oval s')"
proof (cases "oval s' = oval s")
  case True
  then show "radii_ok (oval s) \<Longrightarrow> radii_ok (oval s')" by simp
next
  case False
  assume st: "step s e = Inr s'" and ok: "radii_ok (oval s)"
  from step_oval_cases [OF st False] obtain x y where "e = MouseMove x y" by blast
  with st have "onMouseMove s x y = Inr s'" by simp
  from onMouseMove_oval_cases [OF this] False ok show "radii_ok (oval s')"
    by (auto simp: clamp_radii)
qed

lemma run_radii: "run s es = Inr s' \<Longrightarrow> radii_ok (oval s) \<Longrightarrow> radii_ok (oval s')"
proof (induction es arbitrary: s)
  case Nil
  then show ?case by simp
next
  case (Cons e es)
  from Cons.prems(1) obtain s1 where s1: "step s e = Inr s1" "run s1 es = Inr s'"
    by (auto split: sum.splits)
  from step_radii [OF s1(1) Cons.prems(2)] show ?case by (rule Cons.IH [OF s1(2)])
qed

text \<open>
  Claim C8. A pointer-move of a radius drag writes
  \<open>rx = clamp (snapshot.rx + dir * dx) 60 (W / 2 - 40)\<close>, respectively
  \<open>ry = clamp (snapshot.ry + dir * dy) 60 (H / 2 - 40)\<close>; a step that changes the oval is
  a pointer-move of such a drag; and if the radii are within
  \<open>[60, W / 2 - 40]\<close> and \<open>[60, H / 2 - 40]\<close> before a run, they are after it.
\<close>

theorem oval_radii_bounded:
  "(dragRef s = Some d \<and> dtype d = ResizeOvalRX \<and> orig d = Some (OrigOval ov dir) \<longrightarrow>
      onMouseMove s x y =
        Inr (s\<lparr>oval := (oval s)\<lparr>o_rx :=
               clamp (o_rx ov + dirval dir * (x - startX d)) 60 (canvasW / 2 - 40)\<rparr>\<rparr>)) \<and>
   (dragRef s = Some d \<and> dtype d = ResizeOvalRY \<and> orig d = Some (OrigOval ov dir) \<longrightarrow>
      onMouseMove s x y =
        Inr (s\<lparr>oval := (oval s)\<lparr>o_ry :=
               clamp (o_ry ov + dirval dir * (y - startY d)) 60 (canvasH / 2 - 40)\<rparr>\<rparr>)) \<and>
   (step s e = Inr s' \<and> oval s' \<noteq> oval s \<longrightarrow>
      (\<exists>x y d. e = MouseMove x y \<and> dragRef s = Some d \<and>
         (dtype d = ResizeOvalRX \<or> dtype d = ResizeOvalRY))) \<and>
   (radii_ok (oval s) \<and> run s es = Inr s'' \<longrightarrow> radii_ok (oval s''))"
proof (intro conjI impI)
  assume "dragRef s = Some d \<and> dtype d = ResizeOvalRX \<and> orig d = Some (OrigOval ov dir)"
  then show "onMouseMove s x y =
        Inr (s\<lparr>oval := (oval s)\<lparr>o_rx :=
               clamp (o_rx ov + dirval dir * (x - startX d)) 60 (canvasW / 2 - 40)\<rparr>\<rparr>)"
    by (simp add: onMouseMove_def resizeRX_val_def Let_def)
next
  assume "dragRef s = Some d \<and> dtype d = ResizeOvalRY \<and> orig d = Some (OrigOval ov dir)"
  then show "onMouseMove s x y =
        Inr (s\<lparr>oval := (oval s)\<lparr>o_ry :=
               clamp (o_ry ov + dirval dir * (y - startY d)) 60 (canvasH / 2 - 40)\<rparr>\<rparr>)"
    by (simp add: onMouseMove_def resizeRY_val_def Let_def)
next
  assume "step s e = Inr s' \<and> oval s' \<noteq> oval s"
  then show "\<exists>x y d. e = MouseMove x y \<and> dragRef s = Some d \<and>
         (dtype d = ResizeOvalRX \<or> dtype d = ResizeOvalRY)"
    using step_oval_cases by blast
next
  assume "radii_ok (oval s) \<and> run s es = Inr s''"
  then show "radii_ok (oval s'')" using run_radii by blast
qed


theorem oval_radii_bounded_witness:
  "onMouseMove (onMouseDownOvalRX initialState DirPos 800 280) 1000 280 =
     Inr ((onMouseDownOvalRX initialState DirPos 800 280)\<lparr>oval := initialOval\<lparr>o_rx := 440\<rparr>\<rparr>) \<and>
   onMouseMove (onMouseDownOvalRY initialState DirNeg 480 80) 480 0 =
     Inr ((onMouseDownOvalRY initialState DirNeg 480 80)\<lparr>oval := initialOval\<lparr>o_ry := 240\<rparr>\<rparr>) \<and>
   (\<exists>s''. run initialState [MouseDownOvalRX DirPos 800 280, MouseMove 1000 280] = Inr s'' \<and>
      o_rx (oval s'') = 440 \<and> radii_ok (oval s''))"
proof -
  let ?sx = "onMouseDownOvalRX initialState DirPos 800 280"
  let ?dx = "\<lparr>dtype = ResizeOvalRX, did = None, startX = 800, startY = 280,
              orig = Some (OrigOval initialOval DirPos)\<rparr>"
  let ?sy = "onMouseDownOvalRY initialState DirNeg 480 80"
  let ?dy = "\<lparr>dtype = ResizeOvalRY, did = None, startX = 480, startY = 80,
              orig = Some (OrigOval initialOval DirNeg)\<rparr>"
  let ?sx' = "?sx\<lparr>oval := initialOval\<lparr>o_rx := 440\<rparr>\<rparr>"
  have dx: "dragRef ?sx = Some ?dx" "oval ?sx = initialOval"
    by (simp_all add: onMouseDownOvalRX_def initialState_def)
  have dy: "dragRef ?sy = Some ?dy" "oval ?sy = initialOval"
    by (simp_all add: onMouseDownOvalRY_def initialState_def)
  have a: "onMouseMove ?sx 1000 280 = Inr ?sx'"
    using oval_radii_bounded [of ?sx ?dx initialOval DirPos 1000 280] dx
    by (simp add: initialOval_def clamp_def canvasW_def)
  have b: "onMouseMove ?sy 480 0 = Inr (?sy\<lparr>oval := initialOval\<lparr>o_ry := 240\<rparr>\<rparr>)"
    using oval_radii_bounded [of ?sy ?dy initialOval DirNeg 480 0] dy
    by (simp add: initialOval_def clamp_def canvasH_def)
  have r: "run initialState [MouseDownOvalRX DirPos 800 280, MouseMove 1000 280] = Inr ?sx'"
    using a by simp
  have "radii_ok (oval ?sx')"
    using oval_radii_bounded [of initialState _ _ _ _ _ _ _
        "[MouseDownOvalRX DirPos 800 280, MouseMove 1000 280]" ?sx'] r radii_ok_initial
    by blast
  moreover have "o_rx (oval ?sx') = 440" by simp
  ultimately show ?thesis using a b r by blast
qed

subsection \<open>Moving a rectangle\<close>

text \<open>What the move branch computes: the pointer's offset from the start of the drag
  is added to the centre the rectangle has now, and the snapshot is not read.\<close>

lemma onMouseMove_moveRect:
  assumes "dragRef s = Some d" "dtype d = MoveRect" "did d = Some i" "i \<noteq> []"
    "orig d = Some og"
  shows "onMouseMove s x y =
     Inr (s\<lparr>rects := map (\<lambda>r. if r_id r = i
                                then r\<lparr>r_cx := clamp (r_cx r + (x - startX d)) 0 canvasW,
                                       r_cy := clamp (r_cy r + (y - startY d)) 0 canvasH\<rparr>
                                else r) (rects s)\<rparr>)"
proof -
  have "(\<lambda>r. if Some (r_id r) \<noteq> Some i then r else moveRectBy (x - startX d) (y - startY d) r)
      = (\<lambda>r. if r_id r = i
                then r\<lparr>r_cx := clamp (r_cx r + (x - startX d)) 0 canvasW,
                       r_cy := clamp (r_cy r + (y - startY d)) 0 canvasH\<rparr>
                else r)"
    by (rule ext) (simp add: moveRectBy_def Let_def)
  with assms show ?thesis by (simp add: onMouseMove_def Let_def)
qed

text \<open>
  Claim C2, evaluated: the first rectangle is grabbed at \<open>(100, 100)\<close> and the pointer
  reported at \<open>(105, 100)\<close> and then at \<open>(110, 100)\<close>. The snapshot held by the drag is
  still the rectangle as it was at pointer-down and the last delta is 10, but the
  centre is the snapshot's plus 5 after the first move and plus 15 after the second.
\<close>

theorem move_adds_delta_to_live_centre:
  "\<exists>s1 s2. onMouseMove (onMouseDownRectMove initialState ''R1'' 100 100) 105 100 = Inr s1 \<and>
      onMouseMove s1 110 100 = Inr s2 \<and>
      dragRef s2 = Some \<lparr>dtype = MoveRect, did = Some ''R1'', startX = 100, startY = 100,
                          orig = Some (OrigRect rectR1)\<rparr> \<and>
      hd (rects s1) = rectR1\<lparr>r_cx := r_cx rectR1 + 5\<rparr> \<and>
      hd (rects s2) = rectR1\<lparr>r_cx := r_cx rectR1 + 15\<rparr> \<and>
      r_cx (hd (rects s2)) \<noteq> clamp (r_cx rectR1 + (110 - 100)) 0 canvasW"
  by (simp add: onMouseDownRectMove_def onMouseMove_def find_R1 moveRectBy_def
      clamp_def canvasW_def canvasH_def initialState_def initialRects_eval rectR1_def)

text \<open>
  Claim C3, evaluated: the second rectangle is grabbed at \<open>(600, 200)\<close> and the pointer
  reported at \<open>(600, 230)\<close> twice. After one move the centre is 30 lower than at
  pointer-down, after the second 60 lower: the two results differ.
\<close>

theorem move_twice_differs_from_once:
  "\<exists>s1 s2. onMouseMove (onMouseDownRectMove initialState ''R2'' 600 200) 600 230 = Inr s1 \<and>
      onMouseMove s1 600 230 = Inr s2 \<and>
      r_id (rects s1 ! 1) = ''R2'' \<and> r_id (rects s2 ! 1) = ''R2'' \<and>
      r_cy (rects s1 ! 1) = 280 - 200 / 3 + 30 \<and>
      r_cy (rects s2 ! 1) = 280 - 200 / 3 + 60 \<and>
      (r_cx (rects s2 ! 1), r_cy (rects s2 ! 1)) \<noteq> (r_cx (rects s1 ! 1), r_cy (rects s1 ! 1))"
  by (simp add: onMouseDownRectMove_def onMouseMove_def moveRectBy_def
      clamp_def canvasW_def canvasH_def initialState_def initialRects_eval)

end
